theory Spec2Isabelle
  imports Complex_Main
begin

section \<open>Session manager (session_manager.py)\<close>

text \<open>
  The session daemon's three components are embedded as pure functions over explicit
  state records. What the Python reads from its environment (the clock, a fresh UUID,
  whether a file write succeeds, what a remote service answers) is an argument of the
  function that reads it. Timestamps are Python floats; they are idealised as reals, and
  no property below depends on floating-point rounding. Log calls do not change any state
  and are left out, except in \<open>wait_for_export\<close>, where the trace records them.
\<close>

subsection \<open>Text helpers: \<open>str(int)\<close>, zero padding, \<open>str.replace\<close>, \<open>str.rsplit\<close>\<close>

definition digit_char :: "nat \<Rightarrow> char" where
  "digit_char n = ''0123456789'' ! (n mod 10)"

text \<open>Decimal rendering of a natural number, as \<open>str(n)\<close> gives it.\<close>

function str_nat :: "nat \<Rightarrow> string" where
  "str_nat n = (if n < 10 then [digit_char n] else str_nat (n div 10) @ [digit_char n])"
  by pat_completeness auto
termination
  by (relation "measure (\<lambda>n. n)") auto

declare str_nat.simps [simp del]

definition str_int :: "int \<Rightarrow> string" where
  "str_int i = (if i < 0 then CHR ''-'' # str_nat (nat (- i)) else str_nat (nat i))"

text \<open>\<open>%02d\<close> and \<open>%04d\<close> of a natural number: at least that many digits.\<close>

definition pad2 :: "nat \<Rightarrow> string" where
  "pad2 n = (if n < 10 then CHR ''0'' # str_nat n else str_nat n)"

definition pad4 :: "nat \<Rightarrow> string" where
  "pad4 n = replicate (4 - length (str_nat n)) CHR ''0'' @ str_nat n"

definition pad6 :: "nat \<Rightarrow> string" where
  "pad6 n = replicate (6 - length (str_nat n)) CHR ''0'' @ str_nat n"

text \<open>\<open>s.replace(" ", "_")\<close>: every space character becomes an underscore.\<close>

definition replace_spaces :: "string \<Rightarrow> string" where
  "replace_spaces s = map (\<lambda>c. if c = CHR '' '' then CHR ''_'' else c) s"

text \<open>
  \<open>s.rsplit(".", 1)[0]\<close>: the text before the last dot, the whole text when it has
  no dot. \<open>before_last_dot\<close> scans from the left and keeps what precedes the last dot
  seen (\<open>None\<close>: no dot).
\<close>

fun before_last_dot :: "string \<Rightarrow> string option" where
  "before_last_dot [] = None"
| "before_last_dot (c # cs) =
     (case before_last_dot cs of
        Some pre \<Rightarrow> Some (c # pre)
      | None \<Rightarrow> if c = CHR ''.'' then Some [] else None)"

definition rsplit_dot_head :: "string \<Rightarrow> string" where
  "rsplit_dot_head s = (case before_last_dot s of Some pre \<Rightarrow> pre | None \<Rightarrow> s)"

subsection \<open>Local time\<close>

text \<open>
  What \<open>datetime.fromtimestamp(t, tz=self.tz)\<close> returns: the broken-down local time and
  the zone's UTC offset (in seconds) at that instant. The conversion itself belongs to
  the \<open>zoneinfo\<close> library; the manager carries it as the function \<open>tz\<close>.
\<close>

record datetime =
  dt_year :: nat
  dt_month :: nat
  dt_day :: nat
  dt_hour :: nat
  dt_minute :: nat
  dt_second :: nat
  dt_microsecond :: nat
  dt_utcoffset :: int

text \<open>\<open>strftime("%y%m%d%H%M")\<close>: two digits each of year (mod 100), month, day, hour, minute.\<close>

definition strftime_yymmddHHMM :: "datetime \<Rightarrow> string" where
  "strftime_yymmddHHMM d =
     pad2 (dt_year d mod 100) @ pad2 (dt_month d) @ pad2 (dt_day d)
       @ pad2 (dt_hour d) @ pad2 (dt_minute d)"

definition utcoffset_text :: "int \<Rightarrow> string" where
  "utcoffset_text off =
     (let a = nat \<bar>off\<bar>; hh = a div 3600; mm = (a mod 3600) div 60; ss = a mod 60
      in (if off < 0 then ''-'' else ''+'') @ pad2 hh @ '':'' @ pad2 mm
           @ (if ss = 0 then [] else '':'' @ pad2 ss))"

definition isoformat :: "datetime \<Rightarrow> string" where
  "isoformat d =
     pad4 (dt_year d) @ ''-'' @ pad2 (dt_month d) @ ''-'' @ pad2 (dt_day d) @ ''T''
       @ pad2 (dt_hour d) @ '':'' @ pad2 (dt_minute d) @ '':'' @ pad2 (dt_second d)
       @ (if dt_microsecond d = 0 then [] else ''.'' @ pad6 (dt_microsecond d))
       @ utcoffset_text (dt_utcoffset d)"

text \<open>\<open>round(x, 1)\<close> on an exact value: to the nearest tenth, ties to the even tenth.\<close>

definition round_half_even :: "real \<Rightarrow> int" where
  "round_half_even x =
     (let f = \<lfloor>x\<rfloor>; d = x - of_int f
      in if d < 1 / 2 then f else if 1 / 2 < d then f + 1
         else if even f then f else f + 1)"

definition round1 :: "real \<Rightarrow> real" where
  "round1 x = of_int (round_half_even (x * 10)) / 10"

subsection \<open>Data model\<close>

text \<open>
  \<open>SessionMetadata\<close> and \<open>SessionRecord\<close> share four field names in the source; the
  metadata's fields carry the prefix \<open>md_\<close> here.
\<close>

record SessionMetadata =
  md_mouse_id :: string
  md_recording_type :: string
  md_user_name :: string
  md_chamber :: int

definition default_metadata :: SessionMetadata where
  "default_metadata =
     \<lparr>md_mouse_id = ''unknown'', md_recording_type = ''unknown'',
      md_user_name = ''unknown'', md_chamber = 0\<rparr>"

definition is_default :: "SessionMetadata \<Rightarrow> bool" where
  "is_default m \<longleftrightarrow>
     md_mouse_id m = ''unknown'' \<and> md_recording_type m = ''unknown''
       \<and> md_user_name m = ''unknown''"

record SessionRecord =
  session_id :: string
  start_time_utc :: real
  end_time_utc :: real
  start_time_local :: string
  end_time_local :: string
  duration_seconds :: real
  mouse_id :: string
  recording_type :: string
  user_name :: string
  chamber :: int
  camera :: string
  radiens_xdat_filename :: string
  radiens_xdat_path :: string
  video_filename :: string
  export_status :: string
  nas_transfer_status :: string

text \<open>The dataclass defaults of \<open>SessionRecord\<close>.\<close>

definition default_record :: SessionRecord where
  "default_record =
     \<lparr>session_id = '''', start_time_utc = 0, end_time_utc = 0, start_time_local = '''',
      end_time_local = '''', duration_seconds = 0, mouse_id = '''', recording_type = '''',
      user_name = '''', chamber = 0, camera = '''', radiens_xdat_filename = '''',
      radiens_xdat_path = '''', video_filename = '''', export_status = ''pending'',
      nas_transfer_status = ''skipped''\<rparr>"

text \<open>
  The manager's state. \<open>cameras\<close> is the dict in insertion order; \<open>files\<close> is the content
  of \<open>sessions_dir\<close>: the sidecar record stored under each file name.
\<close>

record SessionManager =
  sessions_dir :: string
  export_dir :: string
  tz :: "real \<Rightarrow> datetime"
  cameras :: "(string \<times> string) list"
  pending_metadata :: SessionMetadata
  active_session :: "SessionRecord option"
  history :: "SessionRecord list"
  files :: "string \<rightharpoonup> SessionRecord"

definition default_cameras :: "(string \<times> string) list" where
  "default_cameras = [(''chamber_0'', ''pi_cam_0''), (''chamber_1'', ''pi_cam_1'')]"

text \<open>
  \<open>__init__\<close>: \<open>cameras or {...}\<close> takes the default table when the argument is \<open>None\<close> or
  empty. \<open>loaded\<close> is what \<open>_load_history\<close> could read from the directory \<open>disk\<close>, in file
  name order.
\<close>

definition init_manager ::
  "string \<Rightarrow> string \<Rightarrow> (real \<Rightarrow> datetime) \<Rightarrow> (string \<times> string) list option
     \<Rightarrow> (string \<rightharpoonup> SessionRecord) \<Rightarrow> SessionRecord list \<Rightarrow> SessionManager" where
  "init_manager sdir edir zone cams disk loaded =
     \<lparr>sessions_dir = sdir, export_dir = edir, tz = zone,
      cameras = (case cams of None \<Rightarrow> default_cameras
                 | Some cs \<Rightarrow> if cs = [] then default_cameras else cs),
      pending_metadata = default_metadata, active_session = None,
      history = loaded, files = disk\<rparr>"

subsection \<open>Operations\<close>

text \<open>\<open>set_metadata\<close>: each argument that is not \<open>None\<close> overwrites its field.\<close>

definition set_metadata ::
  "string option \<Rightarrow> string option \<Rightarrow> string option \<Rightarrow> int option
     \<Rightarrow> SessionManager \<Rightarrow> SessionMetadata \<times> SessionManager" where
  "set_metadata mouse rtype uname chamb m =
     (let p0 = pending_metadata m;
          p1 = (case mouse of None \<Rightarrow> p0 | Some v \<Rightarrow> p0\<lparr>md_mouse_id := v\<rparr>);
          p2 = (case rtype of None \<Rightarrow> p1 | Some v \<Rightarrow> p1\<lparr>md_recording_type := v\<rparr>);
          p3 = (case uname of None \<Rightarrow> p2 | Some v \<Rightarrow> p2\<lparr>md_user_name := v\<rparr>);
          p4 = (case chamb of None \<Rightarrow> p3 | Some v \<Rightarrow> p3\<lparr>md_chamber := v\<rparr>)
      in (p4, m\<lparr>pending_metadata := p4\<rparr>))"

definition clear_metadata :: "SessionManager \<Rightarrow> SessionManager" where
  "clear_metadata m = m\<lparr>pending_metadata := default_metadata\<rparr>"

text \<open>
  \<open>start_session\<close>. \<open>now_utc\<close> is \<open>time.time()\<close>, \<open>new_id\<close> is \<open>str(uuid.uuid4())\<close>. The
  function has no check of the active-session slot and no failing branch.
\<close>

definition start_session ::
  "real \<Rightarrow> string \<Rightarrow> string \<Rightarrow> string \<Rightarrow> SessionManager
     \<Rightarrow> SessionRecord \<times> SessionManager" where
  "start_session now_utc new_id radiens_base_name radiens_file_path m =
     (let now_local = tz m now_utc;
          meta = pending_metadata m;
          camera_key = ''chamber_'' @ str_int (md_chamber meta);
          camera_id = (case map_of (cameras m) camera_key of
                         Some c \<Rightarrow> c
                       | None \<Rightarrow> ''pi_cam_'' @ str_int (md_chamber meta));
          session = default_record
            \<lparr>session_id := new_id,
             start_time_utc := now_utc,
             start_time_local := isoformat now_local,
             mouse_id := md_mouse_id meta,
             recording_type := md_recording_type meta,
             user_name := md_user_name meta,
             chamber := md_chamber meta,
             camera := camera_id,
             radiens_xdat_filename := radiens_base_name,
             radiens_xdat_path := radiens_file_path\<rparr>
      in (session, m\<lparr>active_session := Some session\<rparr>))"

text \<open>\<open>_generate_filename\<close>: the local start time is recomputed from \<open>start_time_utc\<close>.\<close>

definition generate_filename :: "SessionManager \<Rightarrow> SessionRecord \<Rightarrow> string" where
  "generate_filename m session =
     (let start_local = tz m (start_time_utc session);
          timestamp = strftime_yymmddHHMM start_local;
          mouse = replace_spaces (mouse_id session);
          rec_type = replace_spaces (recording_type session)
      in timestamp @ ''_'' @ mouse @ ''_'' @ rec_type @ ''.mp4'')"

text \<open>
  \<open>_write_session_json\<close>: the file name is the video file name up to its last dot (the
  session id when there is no video file name) plus \<open>_session.json\<close>. \<open>write_ok\<close> tells
  whether opening and writing the file succeeds; a failure is logged and nothing is
  written.
\<close>

definition write_session_json :: "bool \<Rightarrow> SessionRecord \<Rightarrow> SessionManager \<Rightarrow> SessionManager" where
  "write_session_json write_ok session m =
     (let base = (if video_filename session \<noteq> [] then rsplit_dot_head (video_filename session)
                  else session_id session);
          json_filename = base @ ''_session.json''
      in if write_ok then m\<lparr>files := (files m)(json_filename \<mapsto> session)\<rparr> else m)"

text \<open>\<open>end_session\<close>: \<open>None\<close> and no change when no session is active.\<close>

definition end_session ::
  "real \<Rightarrow> bool \<Rightarrow> SessionManager \<Rightarrow> SessionRecord option \<times> SessionManager" where
  "end_session now_utc write_ok m =
     (case active_session m of
        None \<Rightarrow> (None, m)
      | Some s0 \<Rightarrow>
          (let now_local = tz m now_utc;
               s1 = s0\<lparr>end_time_utc := now_utc, end_time_local := isoformat now_local,
                       duration_seconds := round1 (now_utc - start_time_utc s0)\<rparr>;
               session = s1\<lparr>video_filename := generate_filename m s1\<rparr>;
               m1 = write_session_json write_ok session m;
               m2 = m1\<lparr>history := history m1 @ [session]\<rparr>;
               m3 = m2\<lparr>active_session := None\<rparr>
           in (Some session, clear_metadata m3)))"

definition abort_session ::
  "string \<Rightarrow> real \<Rightarrow> bool \<Rightarrow> SessionManager \<Rightarrow> SessionRecord option \<times> SessionManager" where
  "abort_session reason now_utc write_ok m =
     (case active_session m of
        None \<Rightarrow> (None, m)
      | Some s0 \<Rightarrow>
          (let now_local = tz m now_utc;
               s1 = s0\<lparr>end_time_utc := now_utc, end_time_local := isoformat now_local,
                       duration_seconds := round1 (now_utc - start_time_utc s0)\<rparr>;
               s2 = s1\<lparr>video_filename := generate_filename m s1\<rparr>;
               session = s2\<lparr>export_status := ''aborted: '' @ reason\<rparr>;
               m1 = write_session_json write_ok session m;
               m2 = m1\<lparr>history := history m1 @ [session]\<rparr>;
               m3 = m2\<lparr>active_session := None\<rparr>
           in (Some session, clear_metadata m3)))"

subsection \<open>Example managers\<close>

text \<open>A fixed zone used in the examples: every instant reads 2024-03-05 14:07:09 at +09:00.\<close>

definition example_tz :: "real \<Rightarrow> datetime" where
  "example_tz t =
     \<lparr>dt_year = 2024, dt_month = 3, dt_day = 5, dt_hour = 14, dt_minute = 7,
      dt_second = 9, dt_microsecond = 0, dt_utcoffset = 32400\<rparr>"

definition example_manager :: SessionManager where
  "example_manager = init_manager ''/s'' ''/e'' example_tz None Map.empty []"

text \<open>
  The new manager above with a session started; the new manager after
  \<open>set_metadata(mouse_id="M1", recording_type="basal", chamber=0)\<close>; and a session record
  whose names contain spaces.
\<close>

definition example_active_manager :: SessionManager where
  "example_active_manager = snd (start_session 10 ''id-1'' ''base'' ''/path'' example_manager)"

definition example_named_manager :: SessionManager where
  "example_named_manager =
     snd (set_metadata (Some ''M1'') (Some ''basal'') None (Some 0) example_manager)"

definition example_session :: SessionRecord where
  "example_session =
     default_record\<lparr>start_time_utc := 1709615229, mouse_id := ''HET CF3 R1'',
                    recording_type := ''sleep dep''\<rparr>"

subsection \<open>The file name format, as the specification words it\<close>

text \<open>
  \<open>YYMMDDHHMM\<close>: ten decimal digits, two each for the year within its century, the
  month, the day, the hour and the minute of a calendar time.
\<close>

definition two_digits :: "nat \<Rightarrow> string" where
  "two_digits n = [digit_char (n div 10), digit_char (n mod 10)]"

definition yymmddhhmm :: "datetime \<Rightarrow> string" where
  "yymmddhhmm d =
     two_digits (dt_year d mod 100) @ two_digits (dt_month d) @ two_digits (dt_day d)
       @ two_digits (dt_hour d) @ two_digits (dt_minute d)"

definition valid_datetime :: "datetime \<Rightarrow> bool" where
  "valid_datetime d \<longleftrightarrow>
     1 \<le> dt_month d \<and> dt_month d \<le> 12 \<and> 1 \<le> dt_day d \<and> dt_day d \<le> 31
       \<and> dt_hour d < 24 \<and> dt_minute d < 60"

text \<open>A session record carries the placeholders in its three name fields.\<close>

definition record_is_default :: "SessionRecord \<Rightarrow> bool" where
  "record_is_default s \<longleftrightarrow>
     mouse_id s = ''unknown'' \<and> recording_type s = ''unknown'' \<and> user_name s = ''unknown''"

subsection \<open>Sequences of metadata calls\<close>

text \<open>A call of \<open>set_metadata\<close> (with its four optional arguments) or of \<open>clear_metadata\<close>.\<close>

datatype metadata_call =
  SetMetadata "string option" "string option" "string option" "int option"
  | ClearMetadata

fun apply_call :: "metadata_call \<Rightarrow> SessionManager \<Rightarrow> SessionManager" where
  "apply_call (SetMetadata mouse rtype uname chamb) m =
     snd (set_metadata mouse rtype uname chamb m)"
| "apply_call ClearMetadata m = clear_metadata m"

fun run_calls :: "metadata_call list \<Rightarrow> SessionManager \<Rightarrow> SessionManager" where
  "run_calls [] m = m"
| "run_calls (c # cs) m = run_calls cs (apply_call c m)"

fun mouse_arg :: "metadata_call \<Rightarrow> string option" where
  "mouse_arg (SetMetadata mouse rtype uname chamb) = mouse"
| "mouse_arg ClearMetadata = None"

fun type_arg :: "metadata_call \<Rightarrow> string option" where
  "type_arg (SetMetadata mouse rtype uname chamb) = rtype"
| "type_arg ClearMetadata = None"

fun user_arg :: "metadata_call \<Rightarrow> string option" where
  "user_arg (SetMetadata mouse rtype uname chamb) = uname"
| "user_arg ClearMetadata = None"

text \<open>The calls made since the last \<open>clear_metadata\<close> (all of them when there is none).\<close>

definition since_clear :: "metadata_call list \<Rightarrow> metadata_call list" where
  "since_clear calls = rev (takeWhile (\<lambda>c. c \<noteq> ClearMetadata) (rev calls))"

text \<open>
  The specification's condition: a \<open>set_metadata\<close> call with a non-null \<open>mouse_id\<close>,
  \<open>recording_type\<close> or \<open>user_name\<close> has occurred since construction or since the last
  \<open>clear_metadata\<close>.
\<close>

definition named_call :: "metadata_call \<Rightarrow> bool" where
  "named_call c \<longleftrightarrow> mouse_arg c \<noteq> None \<or> type_arg c \<noteq> None \<or> user_arg c \<noteq> None"

definition named_since_clear :: "metadata_call list \<Rightarrow> bool" where
  "named_since_clear calls = list_ex named_call (since_clear calls)"

text \<open>The latest non-null argument that the calls pass for one field, if any.\<close>

fun last_arg :: "(metadata_call \<Rightarrow> string option) \<Rightarrow> metadata_call list \<Rightarrow> string option" where
  "last_arg f [] = None"
| "last_arg f (c # cs) = (case last_arg f cs of Some v \<Rightarrow> Some v | None \<Rightarrow> f c)"

definition unset_or_unknown :: "string option \<Rightarrow> bool" where
  "unset_or_unknown a \<longleftrightarrow> a = None \<or> a = Some ''unknown''"

definition example_calls :: "metadata_call list" where
  "example_calls =
     [SetMetadata (Some ''M1'') (Some ''basal'') None (Some 0), ClearMetadata,
      SetMetadata None None None (Some 1)]"

section \<open>Radiens poller (radiens_poller.py)\<close>

datatype RecordingState = ON | OFF | UNKNOWN

text \<open>The \<open>value\<close> of each enum member.\<close>

fun state_value :: "RecordingState \<Rightarrow> string" where
  "state_value ON = ''R_ON''"
| "state_value OFF = ''R_OFF''"
| "state_value UNKNOWN = ''UNKNOWN''"

record RadiensStatus =
  recording :: RecordingState
  stream :: string
  base_name :: string
  file_path :: string
  connected :: bool
  error :: "string option"
  poll_time :: real

text \<open>The dataclass defaults; \<open>poll_time\<close> is the clock when the snapshot is built.\<close>

definition default_status :: "real \<Rightarrow> RadiensStatus" where
  "default_status t =
     \<lparr>recording = UNKNOWN, stream = '''', base_name = '''', file_path = '''',
      connected = False, error = None, poll_time = t\<rparr>"

text \<open>
  Something raised: an \<open>Exception\<close>, which an \<open>except Exception\<close> clause catches, or another
  \<open>BaseException\<close> (\<open>KeyboardInterrupt\<close>, \<open>SystemExit\<close>), which it does not. The text is
  \<open>str(e)\<close>.
\<close>

datatype exc = Exception string | BaseException string

text \<open>
  What \<open>AllegoClient.get_status()\<close> hands back, as far as the poller reads it: the
  attribute \<open>recording\<close> as text, \<open>str(allego_status.recording)\<close> (\<open>Inl\<close>: reading it raises,
  as for a missing attribute), and the three attributes read through \<open>getattr\<close> with the
  default \<open>""\<close> (\<open>None\<close>: the attribute is missing).
\<close>

record AllegoStatus =
  as_recording :: "exc + string"
  as_stream :: "string option"
  as_base_name :: "string option"
  as_path :: "string option"

text \<open>
  The poller's state. \<open>client_set\<close> stands for \<open>self._client is not None\<close>;
  \<open>on_session_start\<close> and \<open>on_session_end\<close> tell whether a callback is registered; the
  poller's \<open>_connected\<close> flag is \<open>poller_connected\<close>.
\<close>

record RadiensPoller =
  poll_interval :: real
  on_session_start :: bool
  on_session_end :: bool
  client_set :: bool
  previous_state :: RecordingState
  poller_connected :: bool
  consecutive_errors :: nat
  max_silent_errors :: nat

definition init_poller :: "real \<Rightarrow> bool \<Rightarrow> bool \<Rightarrow> RadiensPoller" where
  "init_poller interval has_start has_end =
     \<lparr>poll_interval = interval, on_session_start = has_start, on_session_end = has_end,
      client_set = False, previous_state = UNKNOWN, poller_connected = False,
      consecutive_errors = 0, max_silent_errors = 5\<rparr>"

text \<open>
  \<open>connect\<close>. The environment: the import of the client library fails, or the client's
  constructor raises, or the client is built and its first \<open>get_status()\<close> raises (\<open>Inl\<close>)
  or returns. The client is stored before the test poll, so it stays set when that poll
  fails. The result is \<open>None\<close> when something other than an \<open>Exception\<close> was raised and left
  \<open>connect\<close>.
\<close>

datatype connect_env =
  ImportFails
  | ClientRaises exc
  | ClientBuilt "exc + AllegoStatus"

definition connect_raised :: "exc \<Rightarrow> RadiensPoller \<Rightarrow> bool option \<times> RadiensPoller" where
  "connect_raised x p =
     (case x of
        Exception msg \<Rightarrow> (Some False, p\<lparr>poller_connected := False\<rparr>)
      | BaseException msg \<Rightarrow> (None, p))"

definition connect :: "connect_env \<Rightarrow> RadiensPoller \<Rightarrow> bool option \<times> RadiensPoller" where
  "connect env p =
     (case env of
        ImportFails \<Rightarrow> (Some False, p\<lparr>poller_connected := False\<rparr>)
      | ClientRaises x \<Rightarrow> connect_raised x p
      | ClientBuilt r \<Rightarrow>
          (let p1 = p\<lparr>client_set := True\<rparr> in
           case r of
             Inl x \<Rightarrow> connect_raised x p1
           | Inr a \<Rightarrow>
               (let p2 = p1\<lparr>poller_connected := True, consecutive_errors := 0\<rparr> in
                case as_recording a of
                  Inl x \<Rightarrow> connect_raised x p2
                | Inr r \<Rightarrow> (Some True, p2))))"

text \<open>The classification of the raw indicator text.\<close>

definition classify :: "string \<Rightarrow> RecordingState" where
  "classify rec_str =
     (if rec_str = ''R_ON'' then ON else if rec_str = ''R_OFF'' then OFF else UNKNOWN)"

datatype edge = SessionStart | SessionEnd

text \<open>
  The environment of one \<open>poll\<close>: what \<open>get_status()\<close> does (\<open>Inl\<close>: it raises), what the
  callback this poll invokes does, if the poll invokes one (\<open>None\<close>: it returns), and the
  clock read for the snapshot built in the \<open>try\<close> block (or for the early return) and in
  the \<open>except\<close> block.
\<close>

record poll_env =
  get_status :: "exc + AllegoStatus"
  callback_raises :: "exc option"
  now :: real
  now_except :: real

text \<open>
  The body of the \<open>except\<close> block: count the error, drop the connected flag, keep
  \<open>previous_state\<close>, return a disconnected snapshot with the error text.
\<close>

definition poll_failed :: "string \<Rightarrow> real \<Rightarrow> RadiensPoller \<Rightarrow> RadiensStatus \<times> RadiensPoller" where
  "poll_failed msg t p =
     ((default_status t)\<lparr>connected := False, error := Some msg\<rparr>,
      p\<lparr>consecutive_errors := consecutive_errors p + 1, poller_connected := False\<rparr>)"

text \<open>
  Something raised inside the \<open>try\<close> block, with the poller as the block left it and the
  callback already invoked (if any). \<open>except Exception\<close> catches an \<open>Exception\<close>; anything
  else leaves \<open>poll\<close>, which then returns no snapshot (\<open>None\<close>).
\<close>

definition poll_raised ::
  "exc \<Rightarrow> real \<Rightarrow> edge option \<Rightarrow> RadiensPoller
     \<Rightarrow> RadiensStatus option \<times> edge option \<times> RadiensPoller" where
  "poll_raised x t fired p =
     (case x of
        Exception msg \<Rightarrow> (Some (fst (poll_failed msg t p)), fired, snd (poll_failed msg t p))
      | BaseException msg \<Rightarrow> (None, fired, p))"

text \<open>The transition test of the \<open>try\<close> block: the callback it invokes, if any.\<close>

definition detect_edge :: "RadiensPoller \<Rightarrow> RecordingState \<Rightarrow> edge option" where
  "detect_edge p current_state =
     (if previous_state p = OFF \<and> current_state = ON
      then (if on_session_start p then Some SessionStart else None)
      else if previous_state p = ON \<and> current_state = OFF
      then (if on_session_end p then Some SessionEnd else None)
      else None)"

text \<open>
  \<open>poll\<close> returns the status snapshot (\<open>None\<close>: \<open>poll\<close> raised), the callback it invoked (if
  any) and the new poller state. The callbacks run inside the \<open>try\<close> block: one that
  raises an \<open>Exception\<close> sends the poll through the \<open>except\<close> block, before \<open>previous_state\<close>
  is assigned.
\<close>

definition poll ::
  "poll_env \<Rightarrow> RadiensPoller \<Rightarrow> RadiensStatus option \<times> edge option \<times> RadiensPoller" where
  "poll env p =
     (if \<not> client_set p
      then (Some ((default_status (now env))
              \<lparr>connected := False, error := Some ''Not connected (call connect() first)''\<rparr>),
            None, p)
      else
        (case get_status env of
           Inl x \<Rightarrow> poll_raised x (now_except env) None p
         | Inr allego_status \<Rightarrow>
             (let p1 = p\<lparr>poller_connected := True, consecutive_errors := 0\<rparr> in
              case as_recording allego_status of
                Inl x \<Rightarrow> poll_raised x (now_except env) None p1
              | Inr rec_str \<Rightarrow>
                  (let current_state = classify rec_str;
                       status = (default_status (now env))
                         \<lparr>recording := current_state,
                          stream := (case as_stream allego_status of None \<Rightarrow> '''' | Some s \<Rightarrow> s),
                          base_name :=
                            (case as_base_name allego_status of None \<Rightarrow> '''' | Some s \<Rightarrow> s),
                          file_path := (case as_path allego_status of None \<Rightarrow> '''' | Some s \<Rightarrow> s),
                          connected := True\<rparr>;
                       fired = detect_edge p1 current_state
                   in case (fired, callback_raises env) of
                        (Some ed, Some x) \<Rightarrow> poll_raised x (now_except env) fired p1
                      | _ \<Rightarrow> (Some status, fired, p1\<lparr>previous_state := current_state\<rparr>)))))"

text \<open>A run of polls, one environment per poll: the snapshot and the callback of each.\<close>

fun run_polls ::
  "poll_env list \<Rightarrow> RadiensPoller
     \<Rightarrow> (RadiensStatus option \<times> edge option) list \<times> RadiensPoller" where
  "run_polls [] p = ([], p)"
| "run_polls (e # es) p =
     (case poll e p of
        (st, fired, p') \<Rightarrow>
          (case run_polls es p' of (rs, p'') \<Rightarrow> ((st, fired) # rs, p'')))"

subsection \<open>Observations, as the specification words them\<close>

text \<open>
  The indicator a poll observes: the classification of the raw text when \<open>get_status()\<close>
  returned and the text could be read, and none when the observation failed. This is
  read off what the status source did, not off anything \<open>poll\<close> computes.
\<close>

definition observed :: "poll_env \<Rightarrow> RecordingState option" where
  "observed env =
     (case get_status env of
        Inl x \<Rightarrow> None
      | Inr a \<Rightarrow> (case as_recording a of Inl x \<Rightarrow> None | Inr r \<Rightarrow> Some (classify r)))"

text \<open>
  The previous successful observation after a sequence of polls: the indicator of the
  latest poll that observed one, and \<open>start\<close> when none did.
\<close>

fun last_seen :: "RecordingState \<Rightarrow> poll_env list \<Rightarrow> RecordingState" where
  "last_seen start [] = start"
| "last_seen start (e # es) =
     last_seen (case observed e of None \<Rightarrow> start | Some c \<Rightarrow> c) es"

text \<open>The edge between the previous and the current indicator.\<close>

definition edge_between :: "RecordingState \<Rightarrow> RecordingState \<Rightarrow> edge option" where
  "edge_between prev cur =
     (if prev = OFF \<and> cur = ON then Some SessionStart
      else if prev = ON \<and> cur = OFF then Some SessionEnd else None)"

subsection \<open>Example polls\<close>

text \<open>
  A poll that observes the given raw indicator and whose callback returns; the same with
  a callback that raises an \<open>Exception\<close>; a poll whose \<open>get_status()\<close> raises.
\<close>

definition reports :: "string \<Rightarrow> poll_env" where
  "reports rec_str =
     \<lparr>get_status = Inr \<lparr>as_recording = Inr rec_str, as_stream = Some ''s'',
                         as_base_name = Some ''b'', as_path = Some ''/p''\<rparr>,
      callback_raises = None, now = 0, now_except = 0\<rparr>"

definition reports_callback_raises :: "string \<Rightarrow> poll_env" where
  "reports_callback_raises rec_str = (reports rec_str)\<lparr>callback_raises := Some (Exception ''boom'')\<rparr>"

definition unreachable :: poll_env where
  "unreachable =
     \<lparr>get_status = Inl (Exception ''timeout''), callback_raises = None, now = 0,
      now_except = 0\<rparr>"

text \<open>The daemon's poller after a successful \<open>connect\<close>: both callbacks registered.\<close>

definition connected_poller :: RadiensPoller where
  "connected_poller =
     snd (connect (ClientBuilt (get_status (reports ''R_OFF''))) (init_poller 1 True True))"

definition off_on_on_off :: "poll_env list" where
  "off_on_on_off = [reports ''R_OFF'', reports ''R_ON'', reports ''R_ON'', reports ''R_OFF'']"

definition off_fail_fail_on :: "poll_env list" where
  "off_fail_fail_on = [reports ''R_OFF'', unreachable, unreachable, reports ''R_ON'']"

definition off_raises_on :: "poll_env list" where
  "off_raises_on = [reports ''R_OFF'', reports_callback_raises ''R_ON'', reports ''R_ON'']"

section \<open>Frigate controller (frigate_controller.py)\<close>

text \<open>
  Time in this component is counted in milliseconds: \<open>EXPORT_POLL_INTERVAL = 2.0\<close> and
  \<open>EXPORT_TIMEOUT = 300.0\<close> seconds.
\<close>

definition EXPORT_POLL_INTERVAL :: nat where
  "EXPORT_POLL_INTERVAL = 2000"

definition EXPORT_TIMEOUT :: nat where
  "EXPORT_TIMEOUT = 300000"

text \<open>\<open>url.rstrip("/")\<close>: trailing slashes removed.\<close>

definition rstrip_slash :: "string \<Rightarrow> string" where
  "rstrip_slash s = rev (dropWhile (\<lambda>c. c = CHR ''/'') (rev s))"

text \<open>
  The controller's state; its camera table is \<open>fc_cameras\<close>. \<open>mqtt_client_set\<close> stands for
  \<open>self._mqtt_client is not None\<close>.
\<close>

record FrigateController =
  mqtt_host :: string
  mqtt_port :: int
  frigate_url :: string
  fc_cameras :: "(string \<times> string) list"
  mqtt_client_set :: bool
  mqtt_connected :: bool

definition init_controller ::
  "string \<Rightarrow> int \<Rightarrow> string \<Rightarrow> (string \<times> string) list option \<Rightarrow> FrigateController" where
  "init_controller host port url cams =
     \<lparr>mqtt_host = host, mqtt_port = port, frigate_url = rstrip_slash url,
      fc_cameras = (case cams of None \<Rightarrow> default_cameras
                    | Some cs \<Rightarrow> if cs = [] then default_cameras else cs),
      mqtt_client_set = False, mqtt_connected = False\<rparr>"

text \<open>
  \<open>connect_mqtt\<close>. The environment: the client's constructor raises; \<open>connect\<close> or
  \<open>loop_start\<close> raises (the client is already stored); no answer arrives within the five
  seconds; or the broker answers and \<open>_on_connect\<close> runs with a reason code. The result
  is read from the \<open>_mqtt_connected\<close> flag after the wait.
\<close>

datatype mqtt_connect_env =
  MqttClientRaises string
  | MqttConnectRaises string
  | MqttNoAnswer
  | MqttConnack nat

definition connect_mqtt :: "mqtt_connect_env \<Rightarrow> FrigateController \<Rightarrow> bool \<times> FrigateController" where
  "connect_mqtt env c =
     (case env of
        MqttClientRaises e \<Rightarrow> (False, c)
      | MqttConnectRaises e \<Rightarrow> (False, c\<lparr>mqtt_client_set := True\<rparr>)
      | MqttNoAnswer \<Rightarrow> (mqtt_connected c, c\<lparr>mqtt_client_set := True\<rparr>)
      | MqttConnack reason_code \<Rightarrow>
          (let c' = c\<lparr>mqtt_client_set := True,
                      mqtt_connected := (if reason_code = 0 then True else mqtt_connected c)\<rparr>
           in (mqtt_connected c', c')))"

text \<open>
  What the MQTT client does with one message. \<open>publish\<close> raises, or returns a handle;
  \<open>wait_for_publish(timeout=5.0)\<close> on the handle raises (the client reports a publish
  error), or returns: either because the broker's acknowledgment arrived (\<open>True\<close>) or
  because the five seconds ran out first (\<open>False\<close>). The call returns nothing in both
  cases; only \<open>is_published()\<close>, which \<open>set_recording\<close> does not call, tells them apart.
\<close>

datatype wait_outcome = WaitRaises string | WaitReturns bool

datatype publish_outcome = PublishRaises string | PublishReturns wait_outcome

text \<open>\<open>set_recording\<close>: the result, and the message handed to the client (if any).\<close>

definition set_recording ::
  "string \<Rightarrow> bool \<Rightarrow> publish_outcome \<Rightarrow> FrigateController \<Rightarrow> bool \<times> (string \<times> string) option" where
  "set_recording camera_id enabled outcome c =
     (if \<not> mqtt_connected c \<or> \<not> mqtt_client_set c then (False, None)
      else
        (let topic = ''frigate/'' @ camera_id @ ''/recordings/set'';
             payload = (if enabled then ''ON'' else ''OFF'')
         in case outcome of
              PublishRaises e \<Rightarrow> (False, Some (topic, payload))
            | PublishReturns (WaitRaises e) \<Rightarrow> (False, Some (topic, payload))
            | PublishReturns (WaitReturns acknowledged) \<Rightarrow> (True, Some (topic, payload))))"

text \<open>
  \<open>stop_all_recording\<close>. The loop runs over \<open>self.cameras.items()\<close>; \<open>outcomes k\<close> is what
  the client does with the message of the \<open>k\<close>-th call. Besides the result, the model
  returns the \<open>set_recording\<close> calls made, in order: camera, \<open>enabled\<close> argument, result.
\<close>

fun stop_loop ::
  "(string \<times> string) list \<Rightarrow> nat \<Rightarrow> (nat \<Rightarrow> publish_outcome) \<Rightarrow> FrigateController \<Rightarrow> bool
     \<Rightarrow> bool \<times> (string \<times> bool \<times> bool) list" where
  "stop_loop [] k outcomes c success = (success, [])"
| "stop_loop ((key, camera_id) # rest) k outcomes c success =
     (let r = fst (set_recording camera_id False (outcomes k) c)
      in case stop_loop rest (Suc k) outcomes c (if \<not> r then False else success) of
           (final, calls) \<Rightarrow> (final, (camera_id, False, r) # calls))"

definition stop_all_recording ::
  "(nat \<Rightarrow> publish_outcome) \<Rightarrow> FrigateController \<Rightarrow> bool \<times> (string \<times> bool \<times> bool) list" where
  "stop_all_recording outcomes c = stop_loop (fc_cameras c) 0 outcomes c True"

subsection \<open>Waiting for an export\<close>

text \<open>What \<open>response.json()\<close> can return. A dict is its items in order.\<close>

datatype json =
  JNull
  | JBool bool
  | JNum real
  | JStr string
  | JArr "json list"
  | JObj "(string \<times> json) list"

text \<open>\<open>d.get(k)\<close>: \<open>None\<close> for a missing key.\<close>

definition dict_get :: "(string \<times> json) list \<Rightarrow> string \<Rightarrow> json" where
  "dict_get d k = (case map_of d k of Some v \<Rightarrow> v | None \<Rightarrow> JNull)"

text \<open>Python's truth value, and \<open>a or b\<close>.\<close>

fun truthy :: "json \<Rightarrow> bool" where
  "truthy JNull = False"
| "truthy (JBool b) = b"
| "truthy (JNum x) = (x \<noteq> 0)"
| "truthy (JStr s) = (s \<noteq> [])"
| "truthy (JArr xs) = (xs \<noteq> [])"
| "truthy (JObj d) = (d \<noteq> [])"

definition py_or :: "json \<Rightarrow> json \<Rightarrow> json" where
  "py_or a b = (if truthy a then a else b)"

text \<open>\<open>export.get("id") or export.get("name")\<close>.\<close>

definition export_eid :: "(string \<times> json) list \<Rightarrow> json" where
  "export_eid d = py_or (dict_get d ''id'') (dict_get d ''name'')"

datatype scan_result = Found json | NotFound | ScanRaises string

text \<open>
  The \<open>for export in exports\<close> loop: the first dict whose id equals \<open>export_id\<close> is
  returned; an item that is not a dict has no \<open>get\<close> and raises.
\<close>

fun scan_exports :: "string \<Rightarrow> json list \<Rightarrow> scan_result" where
  "scan_exports export_id [] = NotFound"
| "scan_exports export_id (JObj d # rest) =
     (if export_eid d = JStr export_id then Found (JObj d) else scan_exports export_id rest)"
| "scan_exports export_id (x # rest) = ScanRaises ''AttributeError''"

text \<open>
  What the loop iterates over: the items of a list, the keys of a dict, the characters
  of a string; anything else is not iterable.
\<close>

fun iter_items :: "json \<Rightarrow> json list option" where
  "iter_items (JArr xs) = Some xs"
| "iter_items (JObj d) = Some (map (\<lambda>kv. JStr (fst kv)) d)"
| "iter_items (JStr s) = Some (map (\<lambda>c. JStr [c]) s)"
| "iter_items x = None"

text \<open>
  One poll of the list endpoint: the request, the status check or the JSON decoding
  raises (\<open>HttpFails\<close>), or a JSON value comes back.
\<close>

datatype http_result = HttpFails string | HttpJson json

definition check_response :: "string \<Rightarrow> http_result \<Rightarrow> scan_result" where
  "check_response export_id r =
     (case r of
        HttpFails e \<Rightarrow> ScanRaises e
      | HttpJson v \<Rightarrow>
          (case iter_items v of
             None \<Rightarrow> ScanRaises ''TypeError''
           | Some items \<Rightarrow> scan_exports export_id items))"

text \<open>What \<open>wait_for_export\<close> does besides returning: requests, log lines and sleeps.\<close>

datatype event =
  Get nat
  | LogCompleted
  | LogWarning string
  | Sleep nat
  | LogTimedOut

text \<open>
  The \<open>while time.time() < deadline\<close> loop. \<open>env k\<close> is the \<open>k\<close>-th request: how long it
  takes and what comes back. \<open>t\<close> is the clock at the loop test.
\<close>

function wait_loop ::
  "string \<Rightarrow> (nat \<Rightarrow> nat \<times> http_result) \<Rightarrow> nat \<Rightarrow> nat \<Rightarrow> nat \<Rightarrow> json option \<times> event list" where
  "wait_loop export_id env deadline k t =
     (if t < deadline then
        (case check_response export_id (snd (env k)) of
           Found export \<Rightarrow> (Some export, [Get k, LogCompleted])
         | NotFound \<Rightarrow>
             apsnd (\<lambda>tr. Get k # Sleep EXPORT_POLL_INTERVAL # tr)
               (wait_loop export_id env deadline (Suc k)
                  (t + fst (env k) + EXPORT_POLL_INTERVAL))
         | ScanRaises e \<Rightarrow>
             apsnd (\<lambda>tr. Get k # LogWarning e # Sleep EXPORT_POLL_INTERVAL # tr)
               (wait_loop export_id env deadline (Suc k)
                  (t + fst (env k) + EXPORT_POLL_INTERVAL)))
      else (None, [LogTimedOut]))"
  by pat_completeness auto
termination
  by (relation "measure (\<lambda>(export_id, env, deadline, k, t). deadline - t)")
    (auto simp: EXPORT_POLL_INTERVAL_def)

declare wait_loop.simps [simp del]

definition wait_for_export ::
  "string \<Rightarrow> (nat \<Rightarrow> nat \<times> http_result) \<Rightarrow> nat \<Rightarrow> json option \<times> event list" where
  "wait_for_export export_id env t0 = wait_loop export_id env (t0 + EXPORT_TIMEOUT) 0 t0"

text \<open>The clock at the loop test before the \<open>k\<close>-th request.\<close>

fun poll_start :: "(nat \<Rightarrow> nat \<times> http_result) \<Rightarrow> nat \<Rightarrow> nat \<Rightarrow> nat" where
  "poll_start env t0 0 = t0"
| "poll_start env t0 (Suc k) = poll_start env t0 k + fst (env k) + EXPORT_POLL_INTERVAL"

text \<open>
  Frigate's export records carry the flag \<open>in_progress\<close>, true while the clip is still
  being written.
\<close>

definition in_progress :: "json \<Rightarrow> bool" where
  "in_progress e = (case e of JObj d \<Rightarrow> dict_get d ''in_progress'' = JBool True | _ \<Rightarrow> False)"

fun is_found :: "scan_result \<Rightarrow> bool" where
  "is_found (Found e) = True"
| "is_found r = False"

text \<open>
  The \<open>n\<close>-th request is made: the clock at its loop test is before the deadline, and no
  earlier request found the export.
\<close>

definition requested :: "string \<Rightarrow> (nat \<Rightarrow> nat \<times> http_result) \<Rightarrow> nat \<Rightarrow> nat \<Rightarrow> bool" where
  "requested export_id env t0 n \<longleftrightarrow>
     poll_start env t0 n < t0 + EXPORT_TIMEOUT
     \<and> (\<forall>j<n. \<not> is_found (check_response export_id (snd (env j))))"

subsection \<open>Examples\<close>

text \<open>The daemon's controller after \<open>connect_mqtt\<close> succeeded, with the default cameras.\<close>

definition connected_controller :: FrigateController where
  "connected_controller =
     snd (connect_mqtt (MqttConnack 0)
            (init_controller ''127.0.0.1'' 1883 ''http://127.0.0.1:5000/'' None))"

text \<open>The first publish raises; every later one is acknowledged.\<close>

definition first_fails :: "nat \<Rightarrow> publish_outcome" where
  "first_fails k = (if k = 0 then PublishRaises ''boom'' else PublishReturns (WaitReturns True))"

text \<open>
  List endpoints: one whose first request fails and whose later answers list the job
  under \<open>name\<close>; one that never lists it, each request taking 98 seconds; one that lists
  the job while Frigate is still writing the clip.
\<close>

definition fails_then_lists :: "nat \<Rightarrow> nat \<times> http_result" where
  "fails_then_lists k =
     (if k = 0 then (50, HttpFails ''boom'')
      else (50, HttpJson (JArr [JObj [(''id'', JStr ''other'')],
                                JObj [(''name'', JStr ''job1'')]])))"

definition never_lists :: "nat \<Rightarrow> nat \<times> http_result" where
  "never_lists k = (98000, HttpJson (JArr []))"

definition in_progress_record :: json where
  "in_progress_record = JObj [(''id'', JStr ''job1''), (''in_progress'', JBool True)]"

definition lists_in_progress :: "nat \<Rightarrow> nat \<times> http_result" where
  "lists_in_progress k = (50, HttpJson (JArr [in_progress_record]))"

section \<open>Properties of the session manager\<close>

text \<open>
  C7. \<open>end_session\<close> called when no session is active returns \<open>None\<close> (it has no raising
  branch: its result is a value) and leaves the whole manager state unchanged: the
  history, the active-session slot, the pending metadata and the files on disk.
\<close>

theorem end_session_no_active:
  assumes "active_session m = None"
  shows "end_session now_utc write_ok m = (None, m)"
  using assms by (simp add: end_session_def)

theorem end_session_no_active_witness:
  "active_session example_manager = None
   \<and> end_session 100 True example_manager = (None, example_manager)"
proof -
  have h: "active_session example_manager = None"
    by (simp add: example_manager_def init_manager_def)
  show ?thesis
    using h end_session_no_active [OF h, of 100 True] by simp
qed

text \<open>
  C2, as the code has it. \<open>start_session\<close> never fails, whether or not a session is
  active: it returns the new session and stores it in the active-session slot, in place
  of whatever was there. A session that was active is dropped without being closed: the
  history and the files on disk stay as they were.
\<close>

theorem start_session_replaces_active:
  "active_session (snd (start_session now_utc new_id b p m))
     = Some (fst (start_session now_utc new_id b p m))
   \<and> session_id (fst (start_session now_utc new_id b p m)) = new_id
   \<and> history (snd (start_session now_utc new_id b p m)) = history m
   \<and> files (snd (start_session now_utc new_id b p m)) = files m"
  by (simp add: start_session_def Let_def)

text \<open>
  C2 as stated fails: with the session \<open>id-1\<close> active, a second \<open>start_session\<close> returns
  a session and the active-session slot holds that new session, not the one that was
  active.
\<close>

theorem start_session_conflict_counterexample:
  "active_session example_active_manager \<noteq> None
   \<and> active_session (snd (start_session 20 ''id-2'' ''b2'' ''/p2'' example_active_manager))
       = Some (fst (start_session 20 ''id-2'' ''b2'' ''/p2'' example_active_manager))
   \<and> active_session (snd (start_session 20 ''id-2'' ''b2'' ''/p2'' example_active_manager))
       \<noteq> active_session example_active_manager"
  by (simp add: example_active_manager_def start_session_def Let_def example_manager_def
      init_manager_def default_record_def)

subsection \<open>Pending metadata across a session\<close>

lemma start_session_pending:
  "pending_metadata (snd (start_session now_utc new_id b p m)) = pending_metadata m"
  by (simp add: start_session_def Let_def)

lemma start_session_copies:
  "mouse_id (fst (start_session now_utc new_id b p m)) = md_mouse_id (pending_metadata m)
   \<and> recording_type (fst (start_session now_utc new_id b p m))
       = md_recording_type (pending_metadata m)
   \<and> user_name (fst (start_session now_utc new_id b p m)) = md_user_name (pending_metadata m)
   \<and> chamber (fst (start_session now_utc new_id b p m)) = md_chamber (pending_metadata m)"
  by (simp add: start_session_def Let_def)

lemma end_session_resets:
  "active_session m \<noteq> None \<Longrightarrow>
     pending_metadata (snd (end_session now_utc w m)) = default_metadata"
  by (auto simp add: end_session_def Let_def clear_metadata_def write_session_json_def)

text \<open>
  C3, as the code has it. \<open>start_session\<close> copies the pending metadata values into the
  new session and leaves the pending metadata as it was. It is \<open>end_session\<close>, closing an
  active session, that resets the pending metadata to its defaults: right after it
  \<open>is_default()\<close> holds, and a session started next, with no \<open>set_metadata\<close> in between,
  carries the default placeholders.
\<close>

theorem start_session_copies_end_session_resets:
  assumes "active_session m \<noteq> None"
  shows "pending_metadata (snd (start_session t1 id1 b1 p1 m0)) = pending_metadata m0
       \<and> mouse_id (fst (start_session t1 id1 b1 p1 m0)) = md_mouse_id (pending_metadata m0)
       \<and> recording_type (fst (start_session t1 id1 b1 p1 m0))
           = md_recording_type (pending_metadata m0)
       \<and> user_name (fst (start_session t1 id1 b1 p1 m0)) = md_user_name (pending_metadata m0)
       \<and> chamber (fst (start_session t1 id1 b1 p1 m0)) = md_chamber (pending_metadata m0)
       \<and> is_default (pending_metadata (snd (end_session t2 w m)))
       \<and> record_is_default (fst (start_session t3 id3 b3 p3 (snd (end_session t2 w m))))"
  using end_session_resets [OF assms, of t2 w]
  by (simp add: start_session_pending start_session_copies record_is_default_def is_default_def
      default_metadata_def)

theorem start_session_copies_end_session_resets_witness:
  "active_session (snd (start_session 10 ''id-1'' ''b'' ''/p'' example_named_manager)) \<noteq> None
   \<and> mouse_id (fst (start_session 10 ''id-1'' ''b'' ''/p'' example_named_manager)) = ''M1''
   \<and> \<not> is_default (pending_metadata (snd (start_session 10 ''id-1'' ''b'' ''/p'' example_named_manager)))
   \<and> is_default (pending_metadata (snd (end_session 20 True
         (snd (start_session 10 ''id-1'' ''b'' ''/p'' example_named_manager)))))
   \<and> record_is_default (fst (start_session 30 ''id-2'' ''b'' ''/p'' (snd (end_session 20 True
         (snd (start_session 10 ''id-1'' ''b'' ''/p'' example_named_manager))))))"
proof -
  have h: "active_session (snd (start_session 10 ''id-1'' ''b'' ''/p'' example_named_manager))
             \<noteq> None"
    by (simp add: start_session_def Let_def)
  have p: "pending_metadata example_named_manager
             = default_metadata\<lparr>md_mouse_id := ''M1'', md_recording_type := ''basal''\<rparr>"
    by (simp add: example_named_manager_def set_metadata_def Let_def example_manager_def
        init_manager_def default_metadata_def)
  show ?thesis
    using h start_session_copies_end_session_resets [OF h,
        of 10 "''id-1''" "''b''" "''/p''" example_named_manager 20 True 30 "''id-2''" "''b''" "''/p''"]
    by (simp add: p default_metadata_def is_default_def)
qed

text \<open>
  C3 as stated fails: after \<open>set_metadata(mouse_id="M1", recording_type="basal", chamber=0)\<close>
  and \<open>start_session\<close>, the pending metadata is not the default, and a second
  \<open>start_session\<close> with no \<open>set_metadata\<close> in between yields a session for mouse \<open>M1\<close> again.
\<close>

theorem start_session_consumes_counterexample:
  "\<not> is_default (pending_metadata
        (snd (start_session 10 ''id-1'' ''base'' ''/path'' example_named_manager)))
   \<and> mouse_id (fst (start_session 20 ''id-2'' ''base'' ''/path''
        (snd (start_session 10 ''id-1'' ''base'' ''/path'' example_named_manager)))) = ''M1''"
  by (simp add: example_named_manager_def set_metadata_def start_session_def Let_def
      example_manager_def init_manager_def default_metadata_def is_default_def)

subsection \<open>The derived file name\<close>

lemma pad2_two_digits:
  assumes "n < 100"
  shows "pad2 n = two_digits n"
proof (cases "n < 10")
  case True
  then show ?thesis
    by (simp add: pad2_def two_digits_def str_nat.simps [of n] digit_char_def)
next
  case False
  with assms have "n div 10 < 10" by arith
  with False show ?thesis
    by (simp add: pad2_def two_digits_def str_nat.simps [of n] str_nat.simps [of "n div 10"]
        digit_char_def)
qed

lemma strftime_yymmddhhmm:
  "valid_datetime d \<Longrightarrow> strftime_yymmddHHMM d = yymmddhhmm d"
  by (simp add: valid_datetime_def strftime_yymmddHHMM_def yymmddhhmm_def pad2_two_digits)

lemma valid_example_tz: "valid_datetime (example_tz t)"
  by (simp add: valid_datetime_def example_tz_def)

text \<open>
  C8. For a session whose local start time is a calendar time, the derived file name is
  that time as \<open>YYMMDDHHMM\<close>, the subject id and the recording type, both with spaces
  replaced by underscores, joined by underscores, plus \<open>.mp4\<close>. Two calls that agree on
  the local start time, the subject id and the recording type give the same file name,
  whatever else differs between the sessions or the managers.
\<close>

theorem generate_filename_pure:
  assumes "valid_datetime (tz m (start_time_utc s))"
  shows "generate_filename m s =
           yymmddhhmm (tz m (start_time_utc s)) @ ''_'' @ replace_spaces (mouse_id s)
             @ ''_'' @ replace_spaces (recording_type s) @ ''.mp4''
         \<and> (tz m' (start_time_utc s') = tz m (start_time_utc s) \<and> mouse_id s' = mouse_id s
              \<and> recording_type s' = recording_type s
             \<longrightarrow> generate_filename m' s' = generate_filename m s)"
  using assms by (simp add: generate_filename_def Let_def strftime_yymmddhhmm)

theorem generate_filename_pure_witness:
  "valid_datetime (tz example_manager (start_time_utc example_session))
   \<and> generate_filename example_manager example_session = ''2403051407_HET_CF3_R1_sleep_dep.mp4''
   \<and> generate_filename example_manager (example_session\<lparr>session_id := ''other'', chamber := 1\<rparr>)
       = generate_filename example_manager example_session"
proof -
  have e: "tz example_manager = example_tz"
    by (simp add: example_manager_def init_manager_def)
  have v: "valid_datetime (tz example_manager (start_time_utc example_session))"
    by (simp add: e valid_example_tz)
  show ?thesis
    using v generate_filename_pure [OF v,
        of example_manager "example_session\<lparr>session_id := ''other'', chamber := 1\<rparr>"]
    by (simp add: e example_session_def default_record_def yymmddhhmm_def two_digits_def
        digit_char_def example_tz_def replace_spaces_def)
qed

subsection \<open>\<open>is_default\<close> after a sequence of metadata calls\<close>

lemma run_calls_snoc: "run_calls (cs @ [c]) m = apply_call c (run_calls cs m)"
  by (induction cs arbitrary: m) auto

lemma since_clear_snoc:
  "since_clear (cs @ [c]) = (if c = ClearMetadata then [] else since_clear cs @ [c])"
  by (simp add: since_clear_def)

lemma last_arg_snoc:
  "last_arg f (cs @ [c]) = (case f c of Some v \<Rightarrow> Some v | None \<Rightarrow> last_arg f cs)"
  by (induction cs) (auto split: option.splits)

text \<open>
  Each name field holds the latest non-null argument passed for it since the last
  clear, and the placeholder when there is none.
\<close>

lemma pending_after_calls:
  "pending_metadata m = default_metadata \<Longrightarrow>
   md_mouse_id (pending_metadata (run_calls calls m))
     = (case last_arg mouse_arg (since_clear calls) of None \<Rightarrow> ''unknown'' | Some v \<Rightarrow> v)
   \<and> md_recording_type (pending_metadata (run_calls calls m))
     = (case last_arg type_arg (since_clear calls) of None \<Rightarrow> ''unknown'' | Some v \<Rightarrow> v)
   \<and> md_user_name (pending_metadata (run_calls calls m))
     = (case last_arg user_arg (since_clear calls) of None \<Rightarrow> ''unknown'' | Some v \<Rightarrow> v)"
proof (induction calls rule: rev_induct)
  case Nil
  then show ?case by (simp add: since_clear_def default_metadata_def)
next
  case (snoc c cs)
  show ?case
  proof (cases c)
    case ClearMetadata
    then show ?thesis
      by (simp add: run_calls_snoc since_clear_snoc clear_metadata_def default_metadata_def)
  next
    case (SetMetadata mouse rtype uname chamb)
    with snoc show ?thesis
      by (simp add: run_calls_snoc since_clear_snoc last_arg_snoc set_metadata_def Let_def
          split: option.splits)
  qed
qed

lemma last_arg_none: "\<not> list_ex (\<lambda>c. f c \<noteq> None) cs \<Longrightarrow> last_arg f cs = None"
  by (induction cs) auto

lemma not_named_last_arg:
  "\<not> named_since_clear calls \<Longrightarrow>
     last_arg mouse_arg (since_clear calls) = None
     \<and> last_arg type_arg (since_clear calls) = None
     \<and> last_arg user_arg (since_clear calls) = None"
  unfolding named_since_clear_def named_call_def
  by (auto intro!: last_arg_none simp: list_ex_iff)

text \<open>
  C5, as the code has it. Starting from a manager whose pending metadata is the default
  (a new manager), after any sequence of \<open>set_metadata\<close> and \<open>clear_metadata\<close> calls
  \<open>is_default()\<close> is true if and only if, for each of \<open>mouse_id\<close>, \<open>recording_type\<close> and
  \<open>user_name\<close>, the latest non-null argument passed since the last \<open>clear_metadata\<close> is
  the text \<open>unknown\<close> or there is no such argument. In particular it is true when no
  \<open>set_metadata\<close> call with a non-null \<open>mouse_id\<close>, \<open>recording_type\<close> or \<open>user_name\<close> has
  occurred since the last \<open>clear_metadata\<close>.
\<close>

theorem is_default_after_calls:
  assumes "pending_metadata m = default_metadata"
  shows "(is_default (pending_metadata (run_calls calls m)) \<longleftrightarrow>
            unset_or_unknown (last_arg mouse_arg (since_clear calls))
            \<and> unset_or_unknown (last_arg type_arg (since_clear calls))
            \<and> unset_or_unknown (last_arg user_arg (since_clear calls)))
         \<and> (\<not> named_since_clear calls \<longrightarrow> is_default (pending_metadata (run_calls calls m)))"
proof -
  note p = pending_after_calls [OF assms, of calls]
  have a: "is_default (pending_metadata (run_calls calls m)) \<longleftrightarrow>
            unset_or_unknown (last_arg mouse_arg (since_clear calls))
            \<and> unset_or_unknown (last_arg type_arg (since_clear calls))
            \<and> unset_or_unknown (last_arg user_arg (since_clear calls))"
    using p by (auto simp: is_default_def unset_or_unknown_def split: option.splits)
  have b: "\<not> named_since_clear calls \<longrightarrow> is_default (pending_metadata (run_calls calls m))"
    using not_named_last_arg [of calls] a by (auto simp: unset_or_unknown_def)
  from a b show ?thesis by blast
qed

theorem is_default_after_calls_witness:
  "pending_metadata example_manager = default_metadata
   \<and> \<not> named_since_clear example_calls
   \<and> is_default (pending_metadata (run_calls example_calls example_manager))
   \<and> \<not> is_default (pending_metadata
         (run_calls (example_calls @ [SetMetadata None None (Some ''ann'') None])
            example_manager))
   \<and> last_arg user_arg
         (since_clear (example_calls @ [SetMetadata None None (Some ''ann'') None]))
       = Some ''ann''"
proof -
  have h: "pending_metadata example_manager = default_metadata"
    by (simp add: example_manager_def init_manager_def)
  have n: "\<not> named_since_clear example_calls"
    by (simp add: example_calls_def named_since_clear_def since_clear_def named_call_def)
  have l: "last_arg user_arg
             (since_clear (example_calls @ [SetMetadata None None (Some ''ann'') None]))
           = Some ''ann''"
    by (simp add: example_calls_def since_clear_def)
  from is_default_after_calls [OF h, of example_calls] n
  have d1: "is_default (pending_metadata (run_calls example_calls example_manager))"
    by blast
  from is_default_after_calls [OF h,
      of "example_calls @ [SetMetadata None None (Some ''ann'') None]"] l
  have d2: "\<not> is_default (pending_metadata
      (run_calls (example_calls @ [SetMetadata None None (Some ''ann'') None]) example_manager))"
    by (simp add: unset_or_unknown_def)
  from h n d1 d2 l show ?thesis by simp
qed

text \<open>
  C5 as stated fails: \<open>set_metadata(mouse_id="unknown")\<close> on a new manager is a call with
  a non-null \<open>mouse_id\<close>, and \<open>is_default()\<close> is still true after it.
\<close>

theorem is_default_counterexample:
  "\<not> (is_default (pending_metadata
          (run_calls [SetMetadata (Some ''unknown'') None None None] example_manager))
       \<longleftrightarrow> \<not> named_since_clear [SetMetadata (Some ''unknown'') None None None])"
  by (simp add: named_since_clear_def since_clear_def named_call_def set_metadata_def Let_def
      example_manager_def init_manager_def default_metadata_def is_default_def)

section \<open>Properties of the poller\<close>

text \<open>
  One poll of a poller that has a client, in terms of what the status source and the
  callback did. The callbacks stay registered. The callback invoked is the one
  \<open>detect_edge\<close> names for the indicator observed, and none when the observation failed.
  The stored previous state is kept when the observation failed, and when the callback
  invoked raised; otherwise it becomes the indicator observed.
\<close>

lemma poll_raised_state:
  "client_set (snd (snd (poll_raised x t fired p))) = client_set p
   \<and> on_session_start (snd (snd (poll_raised x t fired p))) = on_session_start p
   \<and> on_session_end (snd (snd (poll_raised x t fired p))) = on_session_end p
   \<and> previous_state (snd (snd (poll_raised x t fired p))) = previous_state p
   \<and> fst (snd (poll_raised x t fired p)) = fired"
  by (cases x) (simp_all add: poll_raised_def poll_failed_def)

lemma detect_edge_flags:
  "detect_edge (p\<lparr>poller_connected := a, consecutive_errors := b\<rparr>) c = detect_edge p c"
  by (simp add: detect_edge_def)

lemma poll_step:
  assumes "client_set p"
  shows "client_set (snd (snd (poll e p)))
         \<and> on_session_start (snd (snd (poll e p))) = on_session_start p
         \<and> on_session_end (snd (snd (poll e p))) = on_session_end p
         \<and> fst (snd (poll e p)) = (case observed e of None \<Rightarrow> None | Some c \<Rightarrow> detect_edge p c)
         \<and> previous_state (snd (snd (poll e p)))
             = (case observed e of
                  None \<Rightarrow> previous_state p
                | Some c \<Rightarrow>
                    if detect_edge p c \<noteq> None \<and> callback_raises e \<noteq> None
                    then previous_state p else c)"
proof (cases "get_status e")
  case (Inl x)
  with assms show ?thesis
    by (simp add: poll_def observed_def poll_raised_state)
next
  case (Inr a)
  show ?thesis
  proof (cases "as_recording a")
    case (Inl x)
    with Inr assms show ?thesis
      by (simp add: poll_def observed_def poll_raised_state)
  next
    case rd: (Inr rec_str)
    show ?thesis
    proof (cases "detect_edge p (classify rec_str)")
      case None
      with rd Inr assms show ?thesis
        by (simp add: poll_def observed_def detect_edge_flags Let_def)
    next
      case fired: (Some ed)
      show ?thesis
      proof (cases "callback_raises e")
        case None
        with fired rd Inr assms show ?thesis
          by (simp add: poll_def observed_def detect_edge_flags Let_def)
      next
        case raised: (Some x)
        with fired rd Inr assms show ?thesis
          by (simp add: poll_def observed_def detect_edge_flags poll_raised_state Let_def)
      qed
    qed
  qed
qed

lemma detect_edge_registered:
  "on_session_start p \<Longrightarrow> on_session_end p \<Longrightarrow>
     detect_edge p c = edge_between (previous_state p) c"
  by (simp add: detect_edge_def edge_between_def)

text \<open>A run of polls, unfolded at its first and at its last poll.\<close>

lemma run_polls_Cons:
  "run_polls (e # es) p =
     ((fst (poll e p), fst (snd (poll e p))) # fst (run_polls es (snd (snd (poll e p)))),
      snd (run_polls es (snd (snd (poll e p)))))"
  by (simp split: prod.splits)

lemma run_polls_snoc:
  "run_polls (es @ [e]) p =
     (fst (run_polls es p)
        @ [(fst (poll e (snd (run_polls es p))), fst (snd (poll e (snd (run_polls es p)))))],
      snd (snd (poll e (snd (run_polls es p)))))"
  by (induction es arbitrary: p) (simp_all add: run_polls_Cons del: run_polls.simps(2))

lemma length_run_polls: "length (fst (run_polls es p)) = length es"
  by (induction es arbitrary: p) (simp_all add: run_polls_Cons del: run_polls.simps(2))

lemma run_polls_take:
  "fst (run_polls (take i es) p) = take i (fst (run_polls es p))"
proof (induction es arbitrary: p i)
  case Nil
  then show ?case by simp
next
  case (Cons e es)
  show ?case
  proof (cases i)
    case 0
    then show ?thesis by simp
  next
    case (Suc j)
    with Cons.IH [of j] show ?thesis
      by (simp add: run_polls_Cons del: run_polls.simps(2))
  qed
qed

text \<open>Poll \<open>i\<close> of a run is the poll of the poller that the first \<open>i\<close> polls leave.\<close>

lemma run_polls_nth:
  assumes "i < length es"
  shows "fst (run_polls es p) ! i
           = (fst (poll (es ! i) (snd (run_polls (take i es) p))),
              fst (snd (poll (es ! i) (snd (run_polls (take i es) p)))))"
proof -
  from assms have t: "take (Suc i) es = take i es @ [es ! i]"
    by (simp add: take_Suc_conv_app_nth)
  from assms have "fst (run_polls es p) ! i = take (Suc i) (fst (run_polls es p)) ! i"
    by simp
  also have "\<dots> = fst (run_polls (take (Suc i) es) p) ! i"
    by (simp only: run_polls_take)
  also have "\<dots> = (fst (poll (es ! i) (snd (run_polls (take i es) p))),
              fst (snd (poll (es ! i) (snd (run_polls (take i es) p)))))"
    using assms unfolding t run_polls_snoc
    by (simp add: nth_append length_run_polls)
  finally show ?thesis .
qed

lemma run_polls_registered:
  assumes "client_set p"
  shows "client_set (snd (run_polls es p))
         \<and> on_session_start (snd (run_polls es p)) = on_session_start p
         \<and> on_session_end (snd (run_polls es p)) = on_session_end p"
  using assms
proof (induction es arbitrary: p)
  case Nil
  then show ?case by simp
next
  case (Cons e es)
  note step = poll_step [OF Cons.prems, of e]
  from step have c: "client_set (snd (snd (poll e p)))" by simp
  from Cons.IH [OF c] step show ?case
    by (simp add: run_polls_Cons del: run_polls.simps(2))
qed

text \<open>
  While every callback returns, the stored previous state is the previous successful
  observation.
\<close>

lemma run_polls_last_seen:
  assumes "client_set p" and "\<forall>e\<in>set es. callback_raises e = None"
  shows "previous_state (snd (run_polls es p)) = last_seen (previous_state p) es"
  using assms
proof (induction es arbitrary: p)
  case Nil
  then show ?case by simp
next
  case (Cons e es)
  note step = poll_step [OF Cons.prems(1), of e]
  from step have c: "client_set (snd (snd (poll e p)))" by simp
  from Cons.prems(2) have r: "callback_raises e = None" "\<forall>e\<in>set es. callback_raises e = None"
    by simp_all
  from step r(1)
  have "previous_state (snd (snd (poll e p)))
          = (case observed e of None \<Rightarrow> previous_state p | Some c \<Rightarrow> c)"
    by (simp split: option.splits)
  with Cons.IH [OF c r(2)] show ?case
    by (simp add: run_polls_Cons del: run_polls.simps(2))
qed

text \<open>The polls \<open>[Off, On, On, Off]\<close> on a newly connected poller, run through the code.\<close>

lemma off_on_on_off_edges:
  "map snd (fst (run_polls off_on_on_off connected_poller))
     = [None, Some SessionStart, None, Some SessionEnd]"
  by (simp add: off_on_on_off_def connected_poller_def connect_def init_poller_def reports_def
      poll_def detect_edge_def classify_def default_status_def Let_def)

text \<open>
  Edge detection over a run of polls. Take a poller that has a client and both callbacks
  registered, and any sequence of polls: \<open>get_status()\<close> may raise or return any raw
  indicator text, and an invoked callback may return or raise. What a poll observes is
  read off what \<open>get_status()\<close> did (\<open>observed\<close>). Poll \<open>i\<close> invokes \<open>on_session_start\<close> if and
  only if it observes \<open>ON\<close> while the stored previous state is \<open>OFF\<close>, and \<open>on_session_end\<close>
  if and only if it observes \<open>OFF\<close> while the stored previous state is \<open>ON\<close>. A poll whose
  observation fails invokes nothing and leaves the stored previous state unchanged. A
  poll that observes an indicator and whose callback (if any) returns stores that
  indicator; a poll whose callback raises leaves the stored previous state unchanged.
  So, as long as every callback invoked so far has returned, the stored previous state
  is the previous successful observation (the poller's initial state, \<open>UNKNOWN\<close> for a new
  poller, when there is none): a first observation and an observation classified
  \<open>UNKNOWN\<close> invoke nothing. The polls \<open>[Off, On, On, Off]\<close> on a newly connected poller
  invoke nothing, start, nothing, end.
\<close>

lemma poll_edges:
  assumes "client_set p" and "on_session_start p" and "on_session_end p"
    and "i < length es"
  shows "(snd (fst (run_polls es p) ! i) = Some SessionStart
            \<longleftrightarrow> observed (es ! i) = Some ON
                \<and> previous_state (snd (run_polls (take i es) p)) = OFF)
       \<and> (snd (fst (run_polls es p) ! i) = Some SessionEnd
            \<longleftrightarrow> observed (es ! i) = Some OFF
                \<and> previous_state (snd (run_polls (take i es) p)) = ON)
       \<and> (observed (es ! i) = None
            \<longrightarrow> snd (fst (run_polls es p) ! i) = None
                \<and> previous_state (snd (run_polls (take (Suc i) es) p))
                    = previous_state (snd (run_polls (take i es) p)))
       \<and> (observed (es ! i) = Some c \<and> callback_raises (es ! i) = None
            \<longrightarrow> previous_state (snd (run_polls (take (Suc i) es) p)) = c)
       \<and> (snd (fst (run_polls es p) ! i) \<noteq> None \<and> callback_raises (es ! i) \<noteq> None
            \<longrightarrow> previous_state (snd (run_polls (take (Suc i) es) p))
                  = previous_state (snd (run_polls (take i es) p)))
       \<and> ((\<forall>e\<in>set (take i es). callback_raises e = None)
            \<longrightarrow> previous_state (snd (run_polls (take i es) p))
                  = last_seen (previous_state p) (take i es))
       \<and> map snd (fst (run_polls off_on_on_off connected_poller))
            = [None, Some SessionStart, None, Some SessionEnd]"
proof -
  let ?q = "snd (run_polls (take i es) p)"
  from run_polls_registered [OF assms(1), of "take i es"] assms
  have q: "client_set ?q" "on_session_start ?q" "on_session_end ?q"
    by simp_all
  note step = poll_step [OF q(1), of "es ! i"]
  have fired0: "snd (fst (run_polls es p) ! i)
                 = (case observed (es ! i) of None \<Rightarrow> None | Some c \<Rightarrow> detect_edge ?q c)"
    using step by (simp add: run_polls_nth [OF assms(4)])
  have fired: "snd (fst (run_polls es p) ! i)
                 = (case observed (es ! i) of
                      None \<Rightarrow> None
                    | Some c \<Rightarrow> edge_between (previous_state ?q) c)"
    unfolding fired0 by (simp add: detect_edge_registered [OF q(2,3)] split: option.splits)
  from assms(4) have t: "take (Suc i) es = take i es @ [es ! i]"
    by (simp add: take_Suc_conv_app_nth)
  have nxt: "previous_state (snd (run_polls (take (Suc i) es) p))
               = previous_state (snd (snd (poll (es ! i) ?q)))"
    unfolding t run_polls_snoc by simp
  have a: "snd (fst (run_polls es p) ! i) = Some SessionStart
            \<longleftrightarrow> observed (es ! i) = Some ON \<and> previous_state ?q = OFF"
    unfolding fired by (auto simp: edge_between_def split: option.splits if_splits)
  have b: "snd (fst (run_polls es p) ! i) = Some SessionEnd
            \<longleftrightarrow> observed (es ! i) = Some OFF \<and> previous_state ?q = ON"
    unfolding fired by (auto simp: edge_between_def split: option.splits if_splits)
  have f: "observed (es ! i) = None
            \<longrightarrow> snd (fst (run_polls es p) ! i) = None
                \<and> previous_state (snd (run_polls (take (Suc i) es) p)) = previous_state ?q"
    using step by (simp add: fired nxt)
  have s: "observed (es ! i) = Some c \<and> callback_raises (es ! i) = None
            \<longrightarrow> previous_state (snd (run_polls (take (Suc i) es) p)) = c"
    using step by (simp add: nxt)
  have r: "snd (fst (run_polls es p) ! i) \<noteq> None \<and> callback_raises (es ! i) \<noteq> None
            \<longrightarrow> previous_state (snd (run_polls (take (Suc i) es) p)) = previous_state ?q"
    using step unfolding fired0 nxt by (auto split: option.splits)
  have l: "(\<forall>e\<in>set (take i es). callback_raises e = None)
            \<longrightarrow> previous_state ?q = last_seen (previous_state p) (take i es)"
    using run_polls_last_seen [OF assms(1), of "take i es"] by blast
  from a b f s r l off_on_on_off_edges show ?thesis by blast
qed

text \<open>
  Two failed observations between \<open>Off\<close> and \<open>On\<close>: the previous successful observation
  is still \<open>OFF\<close>, and the fourth poll invokes \<open>on_session_start\<close>.
\<close>

lemma connected_poller_registered:
  "client_set connected_poller" "on_session_start connected_poller"
  "on_session_end connected_poller" "previous_state connected_poller = UNKNOWN"
  by (simp_all add: connected_poller_def connect_def reports_def init_poller_def Let_def)

lemma poll_edges_off_fail_fail_on:
  "observed (off_fail_fail_on ! 1) = None \<and> observed (off_fail_fail_on ! 2) = None
   \<and> observed (off_fail_fail_on ! 3) = Some ON
   \<and> last_seen UNKNOWN (take 3 off_fail_fail_on) = OFF
   \<and> previous_state (snd (run_polls (take 3 off_fail_fail_on) connected_poller)) = OFF
   \<and> snd (fst (run_polls off_fail_fail_on connected_poller) ! 3) = Some SessionStart"
proof -
  have h: "3 < length off_fail_fail_on"
    by (simp add: off_fail_fail_on_def)
  have o: "observed (off_fail_fail_on ! 1) = None" "observed (off_fail_fail_on ! 2) = None"
    "observed (off_fail_fail_on ! 3) = Some ON"
    by (simp_all add: off_fail_fail_on_def observed_def reports_def unreachable_def classify_def
        numeral_2_eq_2 numeral_3_eq_3)
  have r: "\<forall>e\<in>set (take 3 off_fail_fail_on). callback_raises e = None"
    by (simp add: off_fail_fail_on_def reports_def unreachable_def numeral_3_eq_3)
  have l: "last_seen UNKNOWN (take 3 off_fail_fail_on) = OFF"
    by (simp add: off_fail_fail_on_def observed_def reports_def unreachable_def classify_def
        numeral_3_eq_3)
  note t = poll_edges [OF connected_poller_registered(1-3) h,
      unfolded connected_poller_registered(4)]
  from t r l
  have q: "previous_state (snd (run_polls (take 3 off_fail_fail_on) connected_poller)) = OFF"
    by simp
  from t o(3) q
  have s: "snd (fst (run_polls off_fail_fail_on connected_poller) ! 3) = Some SessionStart"
    by blast
  from o l q s show ?thesis by blast
qed

text \<open>
  C1, where the code departs from it. The callbacks run inside the \<open>try\<close> block of \<open>poll\<close>.
  When the previous successful observation is \<open>OFF\<close>, a poll observes \<open>ON\<close> and the
  \<open>on_session_start\<close> callback it invokes raises an \<open>Exception\<close>, the \<open>except\<close> block takes
  over and the stored previous state stays \<open>OFF\<close>. If the next poll observes \<open>ON\<close> again,
  it invokes \<open>on_session_start\<close> again: on a poll whose indicator is \<open>ON\<close> while the
  previous successful observation was \<open>ON\<close>.
\<close>

theorem poll_callback_raises_fires_again:
  assumes "client_set p" and "on_session_start p" and "on_session_end p"
    and "Suc i < length es"
    and "\<forall>e\<in>set (take i es). callback_raises e = None"
    and "last_seen (previous_state p) (take i es) = OFF"
    and "observed (es ! i) = Some ON"
    and "callback_raises (es ! i) = Some (Exception msg)"
    and "observed (es ! Suc i) = Some ON"
  shows "snd (fst (run_polls es p) ! i) = Some SessionStart
         \<and> previous_state (snd (run_polls (take (Suc i) es) p)) = OFF
         \<and> last_seen (previous_state p) (take (Suc i) es) = ON
         \<and> snd (fst (run_polls es p) ! Suc i) = Some SessionStart"
proof -
  from assms(4) have i: "i < length es" by simp
  note e0 = poll_edges [OF assms(1-3) i]
  note e1 = poll_edges [OF assms(1-3) assms(4)]
  from e0 assms(5,6) have q: "previous_state (snd (run_polls (take i es) p)) = OFF"
    by simp
  from e0 q assms(7) have f0: "snd (fst (run_polls es p) ! i) = Some SessionStart"
    by blast
  from e0 f0 assms(8) q
  have q1: "previous_state (snd (run_polls (take (Suc i) es) p)) = OFF"
    by simp
  from e1 q1 assms(9) have f1: "snd (fst (run_polls es p) ! Suc i) = Some SessionStart"
    by blast
  have snoc: "last_seen s (xs @ [x]) = (case observed x of None \<Rightarrow> last_seen s xs | Some c \<Rightarrow> c)"
    for s xs x
    by (induction xs arbitrary: s) (simp_all split: option.splits)
  from i have "take (Suc i) es = take i es @ [es ! i]"
    by (simp add: take_Suc_conv_app_nth)
  with assms(7) have l: "last_seen (previous_state p) (take (Suc i) es) = ON"
    by (simp add: snoc)
  from f0 q1 l f1 show ?thesis by blast
qed

text \<open>
  The failing input: the polls observe \<open>Off\<close>, \<open>On\<close>, \<open>On\<close>, and the callback of the second
  poll raises. The second and the third poll both invoke \<open>on_session_start\<close>.
\<close>

theorem poll_callback_raises_fires_again_witness:
  "client_set connected_poller \<and> on_session_start connected_poller
   \<and> on_session_end connected_poller \<and> Suc 1 < length off_raises_on
   \<and> last_seen (previous_state connected_poller) (take 1 off_raises_on) = OFF
   \<and> observed (off_raises_on ! 1) = Some ON
   \<and> callback_raises (off_raises_on ! 1) = Some (Exception ''boom'')
   \<and> observed (off_raises_on ! Suc 1) = Some ON
   \<and> last_seen (previous_state connected_poller) (take (Suc 1) off_raises_on) = ON
   \<and> snd (fst (run_polls off_raises_on connected_poller) ! 1) = Some SessionStart
   \<and> snd (fst (run_polls off_raises_on connected_poller) ! Suc 1) = Some SessionStart"
proof -
  have h: "Suc 1 < length off_raises_on"
    by (simp add: off_raises_on_def)
  have r: "\<forall>e\<in>set (take 1 off_raises_on). callback_raises e = None"
    by (simp add: off_raises_on_def reports_def)
  have l: "last_seen (previous_state connected_poller) (take 1 off_raises_on) = OFF"
    by (simp add: connected_poller_registered off_raises_on_def observed_def reports_def
        classify_def)
  have o: "observed (off_raises_on ! 1) = Some ON" "observed (off_raises_on ! Suc 1) = Some ON"
    by (simp_all add: off_raises_on_def observed_def reports_def reports_callback_raises_def
        classify_def)
  have c: "callback_raises (off_raises_on ! 1) = Some (Exception ''boom'')"
    by (simp add: off_raises_on_def reports_callback_raises_def)
  from poll_callback_raises_fires_again [OF connected_poller_registered(1-3) h r l o(1) c o(2)]
    connected_poller_registered(1-3) h l o c
  show ?thesis by blast
qed

text \<open>
  C10. A poll of a poller whose client is \<open>None\<close> returns the default snapshot with
  \<open>connected = False\<close> and the error text \<open>Not connected (call connect() first)\<close>, invokes no
  callback and returns the poller unchanged: previous state, connected flag and error
  count included.
\<close>

theorem poll_without_client:
  assumes "\<not> client_set p"
  shows "poll env p =
           (Some \<lparr>recording = UNKNOWN, stream = '''', base_name = '''', file_path = '''',
                  connected = False, error = Some ''Not connected (call connect() first)'',
                  poll_time = now env\<rparr>,
            None, p)"
  using assms by (simp add: poll_def default_status_def)

theorem poll_without_client_witness:
  "\<not> client_set (init_poller 1 True True)
   \<and> fst (snd (poll (reports ''R_ON'') (init_poller 1 True True))) = None
   \<and> snd (snd (poll (reports ''R_ON'') (init_poller 1 True True))) = init_poller 1 True True
   \<and> map_option connected (fst (poll (reports ''R_ON'') (init_poller 1 True True))) = Some False"
proof -
  have h: "\<not> client_set (init_poller 1 True True)"
    by (simp add: init_poller_def)
  show ?thesis
    using h poll_without_client [OF h, of "reports ''R_ON''"] by simp
qed

section \<open>Properties of the controller\<close>

text \<open>Without a connection \<open>set_recording\<close> returns false and hands nothing to the client.\<close>

lemma set_recording_not_connected:
  "\<not> mqtt_connected c \<Longrightarrow> set_recording camera_id enabled outcome c = (False, None)"
  by (simp add: set_recording_def)

lemma stop_loop_Cons:
  "stop_loop ((key, camera_id) # rest) k outcomes c success =
     (fst (stop_loop rest (Suc k) outcomes c
             (fst (set_recording camera_id False (outcomes k) c) \<and> success)),
      (camera_id, False, fst (set_recording camera_id False (outcomes k) c))
        # snd (stop_loop rest (Suc k) outcomes c
                 (fst (set_recording camera_id False (outcomes k) c) \<and> success)))"
  by (cases "fst (set_recording camera_id False (outcomes k) c)")
    (simp_all add: Let_def split: prod.splits)

lemma stop_loop_calls:
  "snd (stop_loop cams k outcomes c success)
     = map (\<lambda>(j, key, camera_id).
              (camera_id, False, fst (set_recording camera_id False (outcomes j) c)))
         (enumerate k cams)"
proof (induction cams arbitrary: k success)
  case Nil
  show ?case by simp
next
  case (Cons cam cams)
  obtain key camera_id where cam: "cam = (key, camera_id)"
    by (cases cam) auto
  show ?case
    unfolding cam stop_loop_Cons by (simp add: Cons.IH)
qed

lemma stop_loop_result:
  "fst (stop_loop cams k outcomes c success)
     \<longleftrightarrow> success \<and> (\<forall>(j, key, camera_id) \<in> set (enumerate k cams).
                         fst (set_recording camera_id False (outcomes j) c))"
proof (induction cams arbitrary: k success)
  case Nil
  show ?case by simp
next
  case (Cons cam cams)
  obtain key camera_id where cam: "cam = (key, camera_id)"
    by (cases cam) auto
  show ?case
    unfolding cam stop_loop_Cons by (auto simp: Cons.IH)
qed

text \<open>
  C9. \<open>stop_all_recording\<close> calls \<open>set_recording(camera, False)\<close> once for every entry of
  the camera table, in order, whatever the earlier calls returned, and its result is
  true if and only if every one of these calls returned true.
\<close>

theorem stop_all_recording_every_camera:
  "snd (stop_all_recording outcomes c)
     = map (\<lambda>(j, key, camera_id).
              (camera_id, False, fst (set_recording camera_id False (outcomes j) c)))
         (enumerate 0 (fc_cameras c))
   \<and> (fst (stop_all_recording outcomes c)
        \<longleftrightarrow> (\<forall>(j, key, camera_id) \<in> set (enumerate 0 (fc_cameras c)).
               fst (set_recording camera_id False (outcomes j) c)))
   \<and> (fst (stop_all_recording outcomes c)
        \<longleftrightarrow> (\<forall>(camera_id, enabled, r) \<in> set (snd (stop_all_recording outcomes c)). r))"
proof -
  have a: "snd (stop_all_recording outcomes c)
     = map (\<lambda>(j, key, camera_id).
              (camera_id, False, fst (set_recording camera_id False (outcomes j) c)))
         (enumerate 0 (fc_cameras c))"
    by (simp add: stop_all_recording_def stop_loop_calls)
  have b: "fst (stop_all_recording outcomes c)
        \<longleftrightarrow> (\<forall>(j, key, camera_id) \<in> set (enumerate 0 (fc_cameras c)).
               fst (set_recording camera_id False (outcomes j) c))"
    by (simp add: stop_all_recording_def stop_loop_result)
  have d: "fst (stop_all_recording outcomes c)
        \<longleftrightarrow> (\<forall>(camera_id, enabled, r) \<in> set (snd (stop_all_recording outcomes c)). r)"
    unfolding a b by (auto simp: split_def)
  from a b d show ?thesis by blast
qed

theorem stop_all_recording_every_camera_witness:
  "snd (stop_all_recording first_fails connected_controller)
     = [(''pi_cam_0'', False, False), (''pi_cam_1'', False, True)]
   \<and> \<not> fst (stop_all_recording first_fails connected_controller)"
proof -
  have c: "connected_controller
             = (init_controller ''127.0.0.1'' 1883 ''http://127.0.0.1:5000/'' None)
                 \<lparr>mqtt_client_set := True, mqtt_connected := True\<rparr>"
    by (simp add: connected_controller_def connect_mqtt_def Let_def)
  have f: "fc_cameras connected_controller = default_cameras"
    by (simp add: c init_controller_def)
  have e: "enumerate 0 default_cameras = [(0, ''chamber_0'', ''pi_cam_0''), (1, ''chamber_1'', ''pi_cam_1'')]"
    by (simp add: default_cameras_def)
  have s0: "fst (set_recording ''pi_cam_0'' False (first_fails 0) connected_controller) = False"
    by (simp add: c set_recording_def first_fails_def init_controller_def)
  have s1: "fst (set_recording ''pi_cam_1'' False (first_fails (Suc 0)) connected_controller) = True"
    by (simp add: c set_recording_def first_fails_def init_controller_def)
  from stop_all_recording_every_camera [of first_fails connected_controller]
  show ?thesis
    by (simp add: f e s0 s1)
qed

text \<open>
  C6, where the code departs from it. On a connected controller, whenever \<open>publish\<close>
  returns and \<open>wait_for_publish(timeout=5.0)\<close> returns, \<open>set_recording\<close> hands the
  directive to the client and returns true, whether the acknowledgment arrived or the
  five seconds ran out first.
\<close>

theorem set_recording_unacknowledged:
  assumes "mqtt_connected c" and "mqtt_client_set c"
  shows "set_recording camera_id enabled (PublishReturns (WaitReturns acknowledged)) c
           = (True, Some (''frigate/'' @ camera_id @ ''/recordings/set'',
                          if enabled then ''ON'' else ''OFF''))"
  using assms by (simp add: set_recording_def)

text \<open>The failing input: the acknowledgment of \<open>ON\<close> for \<open>pi_cam_0\<close> times out.\<close>

theorem set_recording_unacknowledged_witness:
  "mqtt_connected connected_controller \<and> mqtt_client_set connected_controller
   \<and> fst (set_recording ''pi_cam_0'' True (PublishReturns (WaitReturns False))
            connected_controller) = True"
proof -
  have h: "mqtt_connected connected_controller" "mqtt_client_set connected_controller"
    by (simp_all add: connected_controller_def connect_mqtt_def Let_def)
  from h set_recording_unacknowledged [OF h, of "''pi_cam_0''" True False]
  show ?thesis by simp
qed

subsection \<open>Waiting for an export\<close>

lemma poll_start_mono: "k \<le> n \<Longrightarrow> poll_start env t0 k \<le> poll_start env t0 n"
  by (induction n) (auto simp: le_Suc_eq)

lemma wait_loop_result:
  "t = poll_start env t0 k \<Longrightarrow>
   fst (wait_loop export_id env deadline k t) = Some e \<longleftrightarrow>
     (\<exists>n\<ge>k. poll_start env t0 n < deadline
        \<and> check_response export_id (snd (env n)) = Found e
        \<and> (\<forall>j. k \<le> j \<and> j < n \<longrightarrow> \<not> is_found (check_response export_id (snd (env j)))))"
proof (induction export_id env deadline k t rule: wait_loop.induct)
  case (1 export_id env deadline k t)
  let ?chk = "\<lambda>j. check_response export_id (snd (env j))"
  let ?R = "\<lambda>k. \<exists>n\<ge>k. poll_start env t0 n < deadline \<and> ?chk n = Found e
        \<and> (\<forall>j. k \<le> j \<and> j < n \<longrightarrow> \<not> is_found (?chk j))"
  show ?case
  proof (cases "t < deadline")
    case False
    have "\<not> ?R k"
    proof
      assume "?R k"
      then obtain n where "k \<le> n" "poll_start env t0 n < deadline" by blast
      with poll_start_mono [of k n env t0] 1(3) False show False by simp
    qed
    with False show ?thesis
      by (simp add: wait_loop.simps [of export_id env deadline k t])
  next
    case True
    have step: "?R k \<longleftrightarrow> ?R (Suc k)" if nf: "\<not> is_found (?chk k)"
    proof
      assume "?R k"
      then obtain n where n: "k \<le> n" "poll_start env t0 n < deadline" "?chk n = Found e"
        "\<forall>j. k \<le> j \<and> j < n \<longrightarrow> \<not> is_found (?chk j)" by blast
      from n(3) nf have "n \<noteq> k" by auto
      with n(1) have "Suc k \<le> n" by simp
      with n show "?R (Suc k)" by auto
    next
      assume "?R (Suc k)"
      then obtain n where n: "Suc k \<le> n" "poll_start env t0 n < deadline" "?chk n = Found e"
        "\<forall>j. Suc k \<le> j \<and> j < n \<longrightarrow> \<not> is_found (?chk j)" by blast
      have "\<forall>j. k \<le> j \<and> j < n \<longrightarrow> \<not> is_found (?chk j)"
        using n(4) nf by (metis Suc_leI le_neq_implies_less)
      with n show "?R k" by (intro exI [of _ n]) auto
    qed
    have t': "t + fst (env k) + EXPORT_POLL_INTERVAL = poll_start env t0 (Suc k)"
      using 1(3) by simp
    show ?thesis
    proof (cases "?chk k")
      case (Found e')
      have "?R k \<longleftrightarrow> e' = e"
      proof
        assume "?R k"
        then obtain n where n: "k \<le> n" "?chk n = Found e"
          "\<forall>j. k \<le> j \<and> j < n \<longrightarrow> \<not> is_found (?chk j)" by blast
        have "n = k"
        proof (rule ccontr)
          assume "n \<noteq> k"
          with n(1) have "k < n" by simp
          with n(3) Found show False by auto
        qed
        with n(2) Found show "e' = e" by simp
      next
        assume "e' = e"
        with Found True 1(3) show "?R k" by (intro exI [of _ k]) auto
      qed
      with True Found show ?thesis
        by (simp add: wait_loop.simps [of export_id env deadline k t])
    next
      case NotFound
      from "1.IH"(1) [OF True NotFound t'] step NotFound True show ?thesis
        by (simp add: wait_loop.simps [of export_id env deadline k t])
    next
      case (ScanRaises msg)
      from "1.IH"(2) [OF True ScanRaises t'] step ScanRaises True show ?thesis
        by (simp add: wait_loop.simps [of export_id env deadline k t])
    qed
  qed
qed


lemma wait_loop_gets:
  "t = poll_start env t0 k \<Longrightarrow>
   Get n \<in> set (snd (wait_loop export_id env deadline k t)) \<longleftrightarrow>
     k \<le> n \<and> poll_start env t0 n < deadline
     \<and> (\<forall>j. k \<le> j \<and> j < n \<longrightarrow> \<not> is_found (check_response export_id (snd (env j))))"
proof (induction export_id env deadline k t rule: wait_loop.induct)
  case (1 export_id env deadline k t)
  let ?chk = "\<lambda>j. check_response export_id (snd (env j))"
  let ?R = "\<lambda>k. k \<le> n \<and> poll_start env t0 n < deadline
     \<and> (\<forall>j. k \<le> j \<and> j < n \<longrightarrow> \<not> is_found (?chk j))"
  show ?case
  proof (cases "t < deadline")
    case False
    have "\<not> ?R k"
      using poll_start_mono [of k n env t0] 1(3) False by auto
    with False show ?thesis
      by (simp add: wait_loop.simps [of export_id env deadline k t])
  next
    case True
    have here: "?R k" if "n = k"
      using that True 1(3) by auto
    have step: "?R k \<longleftrightarrow> ?R (Suc k)" if nf: "\<not> is_found (?chk k)" and ne: "n \<noteq> k"
    proof
      assume r: "?R k"
      with ne have "Suc k \<le> n" by simp
      with r show "?R (Suc k)" by auto
    next
      assume r: "?R (Suc k)"
      have "\<forall>j. k \<le> j \<and> j < n \<longrightarrow> \<not> is_found (?chk j)"
        using r nf by (metis Suc_leI le_neq_implies_less)
      with r show "?R k" by auto
    qed
    have t': "t + fst (env k) + EXPORT_POLL_INTERVAL = poll_start env t0 (Suc k)"
      using 1(3) by simp
    show ?thesis
    proof (cases "?chk k")
      case (Found e')
      have "?R k \<longleftrightarrow> n = k"
      proof
        assume r: "?R k"
        show "n = k"
        proof (rule ccontr)
          assume "n \<noteq> k"
          with r have "k < n" by simp
          with r Found show False by auto
        qed
      qed (rule here)
      with True Found show ?thesis
        by (auto simp add: wait_loop.simps [of export_id env deadline k t])
    next
      case NotFound
      show ?thesis
      proof (cases "n = k")
        case True
        with here \<open>t < deadline\<close> NotFound show ?thesis
          by (simp add: wait_loop.simps [of export_id env deadline k t])
      next
        case False
        from "1.IH"(1) [OF True NotFound t'] step [OF _ False] NotFound True False show ?thesis
          by (simp add: wait_loop.simps [of export_id env deadline k t])
      qed
    next
      case (ScanRaises msg)
      show ?thesis
      proof (cases "n = k")
        case True
        with here \<open>t < deadline\<close> ScanRaises show ?thesis
          by (simp add: wait_loop.simps [of export_id env deadline k t])
      next
        case False
        from "1.IH"(2) [OF True ScanRaises t'] step [OF _ False] ScanRaises True False
        show ?thesis
          by (simp add: wait_loop.simps [of export_id env deadline k t])
      qed
    qed
  qed
qed

lemma wait_loop_warns:
  "Get n \<in> set (snd (wait_loop export_id env deadline k t)) \<Longrightarrow>
   check_response export_id (snd (env n)) = ScanRaises msg \<Longrightarrow>
   LogWarning msg \<in> set (snd (wait_loop export_id env deadline k t))"
proof (induction export_id env deadline k t rule: wait_loop.induct)
  case (1 export_id env deadline k t)
  show ?case
  proof (cases "t < deadline")
    case False
    with 1(3) show ?thesis
      by (simp add: wait_loop.simps [of export_id env deadline k t])
  next
    case True
    show ?thesis
    proof (cases "check_response export_id (snd (env k))")
      case (Found e')
      with True 1(3,4) show ?thesis
        by (auto simp add: wait_loop.simps [of export_id env deadline k t])
    next
      case NotFound
      with True 1(3,4) "1.IH"(1) [OF True NotFound] show ?thesis
        by (auto simp add: wait_loop.simps [of export_id env deadline k t])
    next
      case (ScanRaises msg')
      with True 1(3,4) "1.IH"(2) [OF True ScanRaises] show ?thesis
        by (auto simp add: wait_loop.simps [of export_id env deadline k t])
    qed
  qed
qed

lemma wait_loop_sleeps:
  "Sleep d \<in> set (snd (wait_loop export_id env deadline k t)) \<Longrightarrow> d = EXPORT_POLL_INTERVAL"
proof (induction export_id env deadline k t rule: wait_loop.induct)
  case (1 export_id env deadline k t)
  show ?case
  proof (cases "t < deadline")
    case False
    with 1(3) show ?thesis
      by (simp add: wait_loop.simps [of export_id env deadline k t])
  next
    case True
    show ?thesis
    proof (cases "check_response export_id (snd (env k))")
      case (Found e')
      with True 1(3) show ?thesis
        by (simp add: wait_loop.simps [of export_id env deadline k t])
    next
      case NotFound
      with True 1(3) "1.IH"(1) [OF True NotFound] show ?thesis
        by (auto simp add: wait_loop.simps [of export_id env deadline k t])
    next
      case (ScanRaises msg)
      with True 1(3) "1.IH"(2) [OF True ScanRaises] show ?thesis
        by (auto simp add: wait_loop.simps [of export_id env deadline k t])
    qed
  qed
qed

lemma scan_exports_found:
  "scan_exports export_id items = Found e \<Longrightarrow>
     \<exists>d. e = JObj d \<and> e \<in> set items \<and> export_eid d = JStr export_id"
  by (induction export_id items rule: scan_exports.induct) (auto split: if_splits)

lemma check_response_found:
  "check_response export_id r = Found e \<Longrightarrow> \<exists>d. e = JObj d \<and> export_eid d = JStr export_id"
  by (auto simp: check_response_def split: http_result.splits option.splits
      dest: scan_exports_found)


text \<open>
  What \<open>wait_for_export\<close> returns and does, in terms of what each request finds. It
  requests the export list until the clock at the loop test reaches the deadline, 300
  seconds after the call, and sleeps 2 seconds after every request that does not end the
  wait. It returns a record exactly when some request made before the deadline finds
  one, and then what the first such request finds; it returns \<open>None\<close> exactly when no
  request made before the deadline finds one. A request that fails is logged as a
  warning and, after the sleep, followed by the next request if the deadline has not
  passed.
\<close>

lemma wait_for_export_first_listing:
  "(fst (wait_for_export export_id env t0) = Some e
      \<longleftrightarrow> (\<exists>n. requested export_id env t0 n
                \<and> check_response export_id (snd (env n)) = Found e))
   \<and> (fst (wait_for_export export_id env t0) = None
      \<longleftrightarrow> (\<forall>n. requested export_id env t0 n
                \<longrightarrow> \<not> is_found (check_response export_id (snd (env n)))))
   \<and> (check_response export_id r = Found e'
      \<longrightarrow> (\<exists>d. e' = JObj d \<and> export_eid d = JStr export_id))
   \<and> (Get n \<in> set (snd (wait_for_export export_id env t0)) \<longleftrightarrow> requested export_id env t0 n)
   \<and> (Get n \<in> set (snd (wait_for_export export_id env t0))
        \<and> check_response export_id (snd (env n)) = ScanRaises msg
      \<longrightarrow> LogWarning msg \<in> set (snd (wait_for_export export_id env t0))
          \<and> (Get (Suc n) \<in> set (snd (wait_for_export export_id env t0))
               \<longleftrightarrow> poll_start env t0 (Suc n) < t0 + EXPORT_TIMEOUT))
   \<and> (Sleep d \<in> set (snd (wait_for_export export_id env t0)) \<longrightarrow> d = EXPORT_POLL_INTERVAL)"
proof -
  let ?chk = "\<lambda>j. check_response export_id (snd (env j))"
  have t: "t0 = poll_start env t0 0" by simp
  have res: "fst (wait_for_export export_id env t0) = Some x
      \<longleftrightarrow> (\<exists>n. requested export_id env t0 n \<and> ?chk n = Found x)" for x
    unfolding wait_for_export_def requested_def wait_loop_result [OF t] by auto
  have a: "fst (wait_for_export export_id env t0) = Some e
      \<longleftrightarrow> (\<exists>n. requested export_id env t0 n \<and> ?chk n = Found e)"
    by (rule res)
  have b: "fst (wait_for_export export_id env t0) = None
      \<longleftrightarrow> (\<forall>n. requested export_id env t0 n \<longrightarrow> \<not> is_found (?chk n))"
  proof
    assume n: "fst (wait_for_export export_id env t0) = None"
    show "\<forall>n. requested export_id env t0 n \<longrightarrow> \<not> is_found (?chk n)"
    proof (intro allI impI notI)
      fix n
      assume "requested export_id env t0 n" "is_found (?chk n)"
      then obtain x where "requested export_id env t0 n" "?chk n = Found x"
        by (cases "?chk n") auto
      with res [of x] n show False by auto
    qed
  next
    assume r: "\<forall>n. requested export_id env t0 n \<longrightarrow> \<not> is_found (?chk n)"
    show "fst (wait_for_export export_id env t0) = None"
    proof (cases "fst (wait_for_export export_id env t0)")
      case None
      then show ?thesis .
    next
      case (Some x)
      with res [of x] r show ?thesis by auto
    qed
  qed
  have c: "check_response export_id r = Found e'
      \<longrightarrow> (\<exists>d. e' = JObj d \<and> export_eid d = JStr export_id)"
    by (auto dest: check_response_found)
  have g: "Get m \<in> set (snd (wait_for_export export_id env t0)) \<longleftrightarrow> requested export_id env t0 m"
    for m
    unfolding wait_for_export_def requested_def wait_loop_gets [OF t] by auto
  have w: "Get n \<in> set (snd (wait_for_export export_id env t0)) \<and> ?chk n = ScanRaises msg
      \<longrightarrow> LogWarning msg \<in> set (snd (wait_for_export export_id env t0))
          \<and> (Get (Suc n) \<in> set (snd (wait_for_export export_id env t0))
               \<longleftrightarrow> poll_start env t0 (Suc n) < t0 + EXPORT_TIMEOUT)"
  proof (intro impI conjI)
    assume h: "Get n \<in> set (snd (wait_for_export export_id env t0)) \<and> ?chk n = ScanRaises msg"
    then show "LogWarning msg \<in> set (snd (wait_for_export export_id env t0))"
      unfolding wait_for_export_def by (auto intro: wait_loop_warns)
    from h have "requested export_id env t0 n" "\<not> is_found (?chk n)"
      by (simp_all add: g)
    then show "Get (Suc n) \<in> set (snd (wait_for_export export_id env t0))
               \<longleftrightarrow> poll_start env t0 (Suc n) < t0 + EXPORT_TIMEOUT"
      unfolding g requested_def by (auto simp: less_Suc_eq)
  qed
  have s: "Sleep d \<in> set (snd (wait_for_export export_id env t0)) \<longrightarrow> d = EXPORT_POLL_INTERVAL"
    unfolding wait_for_export_def by (auto dest: wait_loop_sleeps)
  from a b c g [of n] w s show ?thesis by blast
qed

text \<open>A failed request is retried; a list that never names the job ends in \<open>None\<close>.\<close>

lemma wait_for_export_examples:
  "requested ''job1'' fails_then_lists 0 1
   \<and> check_response ''job1'' (snd (fails_then_lists 0)) = ScanRaises ''boom''
   \<and> fst (wait_for_export ''job1'' fails_then_lists 0) = Some (JObj [(''name'', JStr ''job1'')])
   \<and> LogWarning ''boom'' \<in> set (snd (wait_for_export ''job1'' fails_then_lists 0))
   \<and> Get 1 \<in> set (snd (wait_for_export ''job1'' fails_then_lists 0))
   \<and> fst (wait_for_export ''job1'' never_lists 0) = None"
proof -
  have c0: "check_response ''job1'' (snd (fails_then_lists 0)) = ScanRaises ''boom''"
    by (simp add: fails_then_lists_def check_response_def)
  have c1: "check_response ''job1'' (snd (fails_then_lists 1))
              = Found (JObj [(''name'', JStr ''job1'')])"
    by (simp add: fails_then_lists_def check_response_def export_eid_def py_or_def dict_get_def)
  have r0: "requested ''job1'' fails_then_lists 0 0"
    by (simp add: requested_def EXPORT_TIMEOUT_def)
  have r1: "requested ''job1'' fails_then_lists 0 1"
    by (simp add: requested_def EXPORT_TIMEOUT_def EXPORT_POLL_INTERVAL_def
        fails_then_lists_def check_response_def)
  have nl: "\<not> is_found (check_response ''job1'' (snd (never_lists n)))" for n
    by (simp add: never_lists_def check_response_def)
  note t0 = wait_for_export_first_listing [of "''job1''" fails_then_lists 0 _ _ _ 0 "''boom''"]
  note t1 = wait_for_export_first_listing [of "''job1''" fails_then_lists 0
      "JObj [(''name'', JStr ''job1'')]" _ _ 1]
  note t2 = wait_for_export_first_listing [of "''job1''" never_lists 0]
  from t1 r1 c1 have res: "fst (wait_for_export ''job1'' fails_then_lists 0)
      = Some (JObj [(''name'', JStr ''job1'')])"
    by blast
  from t0 r0 c0 have warn: "LogWarning ''boom'' \<in> set (snd (wait_for_export ''job1'' fails_then_lists 0))"
    by blast
  from t1 r1 have get1: "Get 1 \<in> set (snd (wait_for_export ''job1'' fails_then_lists 0))"
    by blast
  from t2 nl have none: "fst (wait_for_export ''job1'' never_lists 0) = None"
    by blast
  from r1 c0 res warn get1 none show ?thesis by blast
qed

text \<open>
  A dict that comes after dicts with other ids is the one the scan returns, whatever
  other keys it carries.
\<close>

lemma scan_exports_first_match:
  assumes "\<forall>d'\<in>set pre. export_eid d' \<noteq> JStr export_id"
    and "export_eid d = JStr export_id"
  shows "scan_exports export_id (map JObj pre @ JObj d # rest) = Found (JObj d)"
  using assms by (induction pre) simp_all

text \<open>When a record is returned, the last thing logged is that the export completed.\<close>

lemma wait_loop_completed:
  "fst (wait_loop export_id env deadline k t) = Some e \<Longrightarrow>
     LogCompleted \<in> set (snd (wait_loop export_id env deadline k t))"
proof (induction export_id env deadline k t rule: wait_loop.induct)
  case (1 export_id env deadline k t)
  show ?case
  proof (cases "t < deadline")
    case False
    with 1(3) show ?thesis
      by (simp add: wait_loop.simps [of export_id env deadline k t])
  next
    case True
    show ?thesis
    proof (cases "check_response export_id (snd (env k))")
      case (Found e')
      with True show ?thesis
        by (simp add: wait_loop.simps [of export_id env deadline k t])
    next
      case NotFound
      with True 1(3) "1.IH"(1) [OF True NotFound] show ?thesis
        by (simp add: wait_loop.simps [of export_id env deadline k t])
    next
      case (ScanRaises msg)
      with True 1(3) "1.IH"(2) [OF True ScanRaises] show ?thesis
        by (simp add: wait_loop.simps [of export_id env deadline k t])
    qed
  qed
qed

text \<open>
  C4, where the code departs from it. Whenever a request made before the deadline
  answers with a list in which a dict with the given id (under \<open>id\<close>, or under \<open>name\<close> when
  \<open>id\<close> is missing or empty) comes after dicts with other ids only, \<open>wait_for_export\<close>
  returns that dict and logs the export as completed. Nothing is asked of the dict's
  other keys: a record that says the export is still in progress is returned like any
  other.
\<close>

theorem wait_for_export_returns_listed:
  assumes "requested export_id env t0 n"
    and "snd (env n) = HttpJson (JArr (map JObj pre @ JObj d # rest))"
    and "\<forall>d'\<in>set pre. export_eid d' \<noteq> JStr export_id"
    and "export_eid d = JStr export_id"
  shows "fst (wait_for_export export_id env t0) = Some (JObj d)
         \<and> LogCompleted \<in> set (snd (wait_for_export export_id env t0))"
proof -
  from assms(2) scan_exports_first_match [OF assms(3,4)]
  have "check_response export_id (snd (env n)) = Found (JObj d)"
    by (simp add: check_response_def)
  with assms(1) wait_for_export_first_listing [of export_id env t0 "JObj d"]
  have r: "fst (wait_for_export export_id env t0) = Some (JObj d)"
    by blast
  then have "LogCompleted \<in> set (snd (wait_for_export export_id env t0))"
    unfolding wait_for_export_def by (rule wait_loop_completed)
  with r show ?thesis by simp
qed

text \<open>
  The failing input: the first answer lists the job with \<open>in_progress\<close> true; the record
  is returned at once and logged as completed.
\<close>

theorem wait_for_export_returns_listed_witness:
  "requested ''job1'' lists_in_progress 0 0
   \<and> snd (lists_in_progress 0) = HttpJson (JArr [in_progress_record])
   \<and> in_progress in_progress_record
   \<and> fst (wait_for_export ''job1'' lists_in_progress 0) = Some in_progress_record
   \<and> LogCompleted \<in> set (snd (wait_for_export ''job1'' lists_in_progress 0))"
proof -
  let ?d = "[(''id'', JStr ''job1''), (''in_progress'', JBool True)]"
  have r: "requested ''job1'' lists_in_progress 0 0"
    by (simp add: requested_def EXPORT_TIMEOUT_def)
  have l: "snd (lists_in_progress 0) = HttpJson (JArr (map JObj [] @ JObj ?d # []))"
    by (simp add: lists_in_progress_def in_progress_record_def)
  have n: "\<forall>d'\<in>set []. export_eid d' \<noteq> JStr ''job1''"
    by simp
  have e: "export_eid ?d = JStr ''job1''"
    by (simp add: export_eid_def py_or_def dict_get_def)
  have p: "in_progress in_progress_record"
    by (simp add: in_progress_record_def in_progress_def dict_get_def)
  from wait_for_export_returns_listed [OF r l n e] r l p show ?thesis
    by (simp add: in_progress_record_def)
qed

end
